theory Spec2Isabelle
  imports Main "HOL-Library.Word"
begin

section \<open>Python strings\<close>

text \<open>
  A Python \<open>str\<close> is a sequence of Unicode code points. The field parser looks for
  characters of the Tamil block (U+0B80 to U+0BFF), so a character is a code point, a
  natural number, and not an 8-bit \<open>char\<close>. \<open>u\<close> turns an ASCII literal of the
  source into such a sequence.
\<close>

type_synonym uchar = nat
type_synonym str = "uchar list"
type_synonym bytes = "8 word list"

definition u :: "string \<Rightarrow> str" where
  "u s = map of_char s"

fun in_ranges :: "nat \<Rightarrow> (nat \<times> nat) list \<Rightarrow> bool" where
  "in_ranges c [] = False"
| "in_ranges c ((lo, hi) # rs) = ((lo \<le> c \<and> c \<le> hi) \<or> in_ranges c rs)"

text \<open>
  The character tables are those of the Unicode database of CPython 3.11 (Unicode 14.0),
  as ranges of code points. \<open>str.isspace\<close>, which is also \<open>\s\<close> of the \<open>re\<close>
  module for \<open>str\<close> patterns:
\<close>

definition space_ranges :: "(nat \<times> nat) list" where
  "space_ranges =
    [(9, 13), (28, 32), (133, 133), (160, 160), (5760, 5760), (8192, 8202), (8232, 8233),
     (8239, 8239), (8287, 8287), (12288, 12288)]"

definition is_space :: "uchar \<Rightarrow> bool" where
  "is_space c = in_ranges c space_ranges"

text \<open>
  \<open>str.isdigit\<close> on one character: the ASCII digits, the decimal digits of the other
  scripts and the digit-like characters (superscripts, circled digits). The table holds the
  ranges above ASCII.
\<close>

definition digit_ranges :: "(nat \<times> nat) list" where
  "digit_ranges =
    [(178, 179), (185, 185), (1632, 1641), (1776, 1785), (1984, 1993), (2406, 2415), (2534, 2543),
     (2662, 2671), (2790, 2799), (2918, 2927), (3046, 3055), (3174, 3183), (3302, 3311),
     (3430, 3439), (3558, 3567), (3664, 3673), (3792, 3801), (3872, 3881), (4160, 4169),
     (4240, 4249), (4969, 4977), (6112, 6121), (6160, 6169), (6470, 6479), (6608, 6618),
     (6784, 6793), (6800, 6809), (6992, 7001), (7088, 7097), (7232, 7241), (7248, 7257),
     (8304, 8304), (8308, 8313), (8320, 8329), (9312, 9320), (9332, 9340), (9352, 9360),
     (9450, 9450), (9461, 9469), (9471, 9471), (10102, 10110), (10112, 10120), (10122, 10130),
     (42528, 42537), (43216, 43225), (43264, 43273), (43472, 43481), (43504, 43513),
     (43600, 43609), (44016, 44025), (65296, 65305), (66720, 66729), (68160, 68163),
     (68912, 68921), (69216, 69224), (69714, 69722), (69734, 69743), (69872, 69881),
     (69942, 69951), (70096, 70105), (70384, 70393), (70736, 70745), (70864, 70873),
     (71248, 71257), (71360, 71369), (71472, 71481), (71904, 71913), (72016, 72025),
     (72784, 72793), (73040, 73049), (73120, 73129), (92768, 92777), (92864, 92873),
     (93008, 93017), (120782, 120831), (123200, 123209), (123632, 123641), (125264, 125273),
     (127232, 127242), (130032, 130041)]"

definition is_ascii_digit :: "uchar \<Rightarrow> bool" where
  "is_ascii_digit c = (48 \<le> c \<and> c \<le> 57)"

definition is_digit :: "uchar \<Rightarrow> bool" where
  "is_digit c = (if c < 128 then is_ascii_digit c else in_ranges c digit_ranges)"

text \<open>\<open>s.isdigit()\<close> is false on the empty string.\<close>

definition isdigit :: "str \<Rightarrow> bool" where
  "isdigit s = (s \<noteq> [] \<and> list_all is_digit s)"

text \<open>\<open>s.replace(old, new)\<close> where \<open>old\<close> is one character, as everywhere in the source.\<close>

definition replace :: "uchar \<Rightarrow> str \<Rightarrow> str \<Rightarrow> str" where
  "replace old new s = concat (map (\<lambda>c. if c = old then new else [c]) s)"

text \<open>\<open>s.strip()\<close>, \<open>s.rstrip(',')\<close> and \<open>s.startswith((p1, p2, ...))\<close>.\<close>

definition lstrip :: "str \<Rightarrow> str" where
  "lstrip s = dropWhile is_space s"

definition rstrip :: "str \<Rightarrow> str" where
  "rstrip s = rev (dropWhile is_space (rev s))"

definition strip :: "str \<Rightarrow> str" where
  "strip s = rstrip (lstrip s)"

definition rstrip_char :: "uchar \<Rightarrow> str \<Rightarrow> str" where
  "rstrip_char c s = rev (dropWhile (\<lambda>x. x = c) (rev s))"

definition startswith :: "str \<Rightarrow> str \<Rightarrow> bool" where
  "startswith s p = (take (length p) s = p)"

definition startswith_any :: "str \<Rightarrow> str list \<Rightarrow> bool" where
  "startswith_any s ps = list_ex (startswith s) ps"

text \<open>The decimal numeral of a natural number, as an f-string prints it.\<close>

fun str_of_nat :: "nat \<Rightarrow> str" where
  "str_of_nat n = (if n < 10 then [48 + n] else str_of_nat (n div 10) @ [48 + n mod 10])"

section \<open>The Aadhaar number validator\<close>

text \<open>
  \<^verbatim>\<open>
  def validate_aadhaar(aadhaar_number: str) -> bool:
      aadhaar_number = aadhaar_number.replace(" ", "")
      return bool(aadhaar_number and aadhaar_number.isdigit() and len(aadhaar_number) == 12)
  \<close>
\<close>

definition validate_aadhaar :: "str \<Rightarrow> bool" where
  "validate_aadhaar aadhaar_number =
     (let aadhaar_number = replace 32 [] aadhaar_number
      in aadhaar_number \<noteq> [] \<and> isdigit aadhaar_number \<and> length aadhaar_number = 12)"

section \<open>Text acquisition from a PDF\<close>

text \<open>
  \<open>extract_text_from_pdf\<close> calls the PDF library (\<open>fitz\<close>): it opens the byte stream,
  asks whether the document needs a password, authenticates, reads the text layer of each
  page and closes the document. The library is outside the repository, so what it answers
  is data of the model: opening a byte stream gives an error message or a document, and a
  document records what each of its methods would return. An exception is its message
  (\<open>str(e)\<close>), the only thing the source looks at.

  The field \<open>ocr_text\<close> of a page is the text that \<open>extract_text_from_image\<close> would
  return on the rasterised page. No statement of \<open>extract_text_from_pdf\<close> reads it.
\<close>

record page =
  number :: nat
  get_text :: "str + str"
  ocr_text :: str

record document =
  needs_pass :: bool
  authenticate :: "str \<Rightarrow> str + bool"
  pages :: "page list"
  close :: "str + unit"

text \<open>
  A computation returns a value or raises, and leaves the list of the library calls it
  made, in order.
\<close>

datatype event = Open | Authenticate str | Get_text nat | Close

type_synonym 'a io = "(str + 'a) \<times> event list"

definition io_return :: "'a \<Rightarrow> 'a io" where
  "io_return x = (Inr x, [])"

definition io_raise :: "str \<Rightarrow> 'a io" where
  "io_raise msg = (Inl msg, [])"

definition call :: "event \<Rightarrow> str + 'a \<Rightarrow> 'a io" where
  "call ev r = (r, [ev])"

definition io_bind :: "'a io \<Rightarrow> ('a \<Rightarrow> 'b io) \<Rightarrow> 'b io" where
  "io_bind m f =
     (case m of
        (Inl e, l) \<Rightarrow> (Inl e, l)
      | (Inr x, l) \<Rightarrow> (case f x of (r, l') \<Rightarrow> (r, l @ l')))"

definition try_except :: "'a io \<Rightarrow> (str \<Rightarrow> 'a io) \<Rightarrow> 'a io" where
  "try_except m h =
     (case m of
        (Inl e, l) \<Rightarrow> (case h e of (r, l') \<Rightarrow> (r, l @ l'))
      | (Inr x, l) \<Rightarrow> (Inr x, l))"

definition try_finally :: "'a io \<Rightarrow> unit io \<Rightarrow> 'a io" where
  "try_finally m c =
     (case m of (r, l) \<Rightarrow>
        (case c of
           (Inl e, l') \<Rightarrow> (Inl e, l @ l')
         | (Inr _, l') \<Rightarrow> (r, l @ l')))"

text \<open>\<open>not password\<close> holds for \<open>None\<close> and for the empty string alike.\<close>

definition password_value :: "str option \<Rightarrow> str" where
  "password_value password = (case password of None \<Rightarrow> [] | Some p \<Rightarrow> p)"

text \<open>
  \<^verbatim>\<open>
  if doc.needs_pass:
      if not password:
          raise Exception("Password required for encrypted PDF")
      try:
          if not doc.authenticate(password):
              raise Exception("Invalid password provided for PDF")
      except Exception as e:
          raise Exception(f"PDF decryption failed: {str(e)}")
  elif password:
      raise Exception("PDF is not encrypted, password not required")

      if not doc.authenticate(password):
          raise Exception("Invalid password provided for PDF")
  \<close>
  The second \<open>if\<close> of the \<open>elif\<close> branch follows the \<open>raise\<close> in the same block; the model
  keeps it there, sequenced after the \<open>raise\<close>.
\<close>

definition authenticate_or_raise :: "document \<Rightarrow> str \<Rightarrow> unit io" where
  "authenticate_or_raise doc pw =
     io_bind (call (Authenticate pw) (authenticate doc pw))
       (\<lambda>ok. if \<not> ok then io_raise (u ''Invalid password provided for PDF'')
             else io_return ())"

definition handle_password :: "document \<Rightarrow> str option \<Rightarrow> unit io" where
  "handle_password doc password =
     (let pw = password_value password in
      if needs_pass doc then
        (if pw = [] then io_raise (u ''Password required for encrypted PDF'')
         else try_except (authenticate_or_raise doc pw)
                (\<lambda>e. io_raise (u ''PDF decryption failed: '' @ e)))
      else if pw \<noteq> [] then
        io_bind (io_raise (u ''PDF is not encrypted, password not required'') :: unit io)
          (\<lambda>_. authenticate_or_raise doc pw)
      else io_return ())"

text \<open>The same branch without the statement after the \<open>raise\<close>.\<close>

definition handle_password_pruned :: "document \<Rightarrow> str option \<Rightarrow> unit io" where
  "handle_password_pruned doc password =
     (let pw = password_value password in
      if needs_pass doc then
        (if pw = [] then io_raise (u ''Password required for encrypted PDF'')
         else try_except (authenticate_or_raise doc pw)
                (\<lambda>e. io_raise (u ''PDF decryption failed: '' @ e)))
      else if pw \<noteq> [] then
        io_raise (u ''PDF is not encrypted, password not required'')
      else io_return ())"

text \<open>
  \<^verbatim>\<open>
  for page in doc:
      try:
          page_text = page.get_text("text")
          text += page_text
      except Exception as e:
          raise Exception(f"Error extracting text from page {page.number + 1}: {str(e)}")
  \<close>
\<close>

fun extract_pages :: "page list \<Rightarrow> str \<Rightarrow> str io" where
  "extract_pages [] text = io_return text"
| "extract_pages (pg # pgs) text =
     io_bind
       (try_except
          (io_bind (call (Get_text (number pg)) (get_text pg))
             (\<lambda>page_text. io_return (text @ page_text)))
          (\<lambda>e. io_raise (u ''Error extracting text from page '' @ str_of_nat (number pg + 1)
                          @ u '': '' @ e)))
       (\<lambda>text. extract_pages pgs text)"

text \<open>
  \<^verbatim>\<open>
  except Exception as e:
      if isinstance(e, Exception) and str(e).startswith(
              ("Password required", "Invalid password", "No text could be")):
          raise e
      raise Exception(f"Failed to process PDF: {str(e)}")
  \<close>
\<close>

definition reraise :: "str \<Rightarrow> 'a io" where
  "reraise e =
     (if startswith_any e [u ''Password required'', u ''Invalid password'', u ''No text could be'']
      then io_raise e
      else io_raise (u ''Failed to process PDF: '' @ e))"

definition process_document ::
  "(document \<Rightarrow> str option \<Rightarrow> unit io) \<Rightarrow> document \<Rightarrow> str option \<Rightarrow> str io" where
  "process_document password_check doc password =
     io_bind (password_check doc password)
       (\<lambda>_. io_bind (extract_pages (pages doc) [])
          (\<lambda>text. if strip text = [] then io_raise (u ''No text could be extracted from the PDF'')
                  else io_return text))"

text \<open>
  \<open>if doc:\<close> in the \<open>finally\<close> block: \<open>doc\<close> is \<open>None\<close> when opening failed, and a
  document is false when it has no page (its length). An exception of \<open>close\<close> is dropped.
\<close>

definition close_document :: "str + document \<Rightarrow> unit io" where
  "close_document opened =
     (case opened of
        Inl _ \<Rightarrow> io_return ()
      | Inr doc \<Rightarrow>
          if pages doc = [] then io_return ()
          else try_except (call Close (close doc)) (\<lambda>_. io_return ()))"

definition extract_text_with ::
  "(document \<Rightarrow> str option \<Rightarrow> unit io) \<Rightarrow> (bytes \<Rightarrow> str + document) \<Rightarrow> bytes \<Rightarrow> str option
     \<Rightarrow> str io" where
  "extract_text_with password_check fitz_open pdf_bytes password =
     (if pdf_bytes = [] then io_raise (u ''Empty PDF stream provided'')
      else
        let opened = fitz_open pdf_bytes in
        try_finally
          (try_except
             (io_bind
                (try_except (call Open opened) (\<lambda>e. io_raise (u ''Invalid PDF format: '' @ e)))
                (\<lambda>doc. process_document password_check doc password))
             reraise)
          (close_document opened))"

definition extract_text_from_pdf :: "(bytes \<Rightarrow> str + document) \<Rightarrow> bytes \<Rightarrow> str option \<Rightarrow> str io" where
  "extract_text_from_pdf = extract_text_with handle_password"

definition extract_text_from_pdf_pruned ::
  "(bytes \<Rightarrow> str + document) \<Rightarrow> bytes \<Rightarrow> str option \<Rightarrow> str io" where
  "extract_text_from_pdf_pruned = extract_text_with handle_password_pruned"

text \<open>
  What the page loop computes, stated on the pages' text layers alone: the texts appended
  in page order, or the message of the first page whose extraction raises.
\<close>

fun native_text :: "page list \<Rightarrow> str + str" where
  "native_text [] = Inr []"
| "native_text (pg # pgs) =
     (case get_text pg of
        Inl e \<Rightarrow>
          Inl (u ''Error extracting text from page '' @ str_of_nat (number pg + 1) @ u '': '' @ e)
      | Inr t \<Rightarrow> (case native_text pgs of Inl e \<Rightarrow> Inl e | Inr ts \<Rightarrow> Inr (t @ ts)))"

text \<open>\<open>sep.join(xs)\<close> and \<open>sub in s\<close>.\<close>

fun join :: "str \<Rightarrow> str list \<Rightarrow> str" where
  "join sep [] = []"
| "join sep [x] = x"
| "join sep (x # y # ys) = x @ sep @ join sep (y # ys)"

fun contains :: "str \<Rightarrow> str \<Rightarrow> bool" where
  "contains [] sub = (sub = [])"
| "contains (x # xs) sub = (startswith (x # xs) sub \<or> contains xs sub)"

subsection \<open>Example documents\<close>

text \<open>
  An unencrypted document of two pages with a text layer, as the PDF library returns it
  (each line ends with a newline).
\<close>

definition text_doc :: document where
  "text_doc =
     \<lparr>needs_pass = False, authenticate = (\<lambda>_. Inr True),
      pages = [\<lparr>number = 0, get_text = Inr (u ''Name: A\<newline>''), ocr_text = []\<rparr>,
               \<lparr>number = 1, get_text = Inr (u ''DOB: 01/01/1990\<newline>''), ocr_text = []\<rparr>],
      close = Inr ()\<rparr>"

text \<open>
  An unencrypted document whose second page is a scan: its text layer is empty, and OCR
  of the page would read a line.
\<close>

definition half_scanned_doc :: document where
  "half_scanned_doc =
     \<lparr>needs_pass = False, authenticate = (\<lambda>_. Inr True),
      pages = [\<lparr>number = 0, get_text = Inr (u ''Name: A\<newline>''), ocr_text = []\<rparr>,
               \<lparr>number = 1, get_text = Inr [], ocr_text = u ''DOB: 01/01/1990\<newline>''\<rparr>],
      close = Inr ()\<rparr>"

text \<open>A scan of one page: no text layer at all.\<close>

definition scanned_doc :: document where
  "scanned_doc =
     \<lparr>needs_pass = False, authenticate = (\<lambda>_. Inr True),
      pages = [\<lparr>number = 0, get_text = Inr [], ocr_text = u ''Name: A\<newline>''\<rparr>],
      close = Inr ()\<rparr>"

section \<open>Regular expressions of the \<open>re\<close> module\<close>

subsection \<open>Character classes\<close>

text \<open>
  For a \<open>str\<close> pattern \<open>\d\<close> is a Unicode decimal digit, \<open>\w\<close> a Unicode
  alphanumeric character or the underscore, and \<open>\s\<close> is \<open>is_space\<close> above. The tables
  hold the ranges above ASCII.
\<close>

definition decimal_ranges :: "(nat \<times> nat) list" where
  "decimal_ranges =
    [(1632, 1641), (1776, 1785), (1984, 1993), (2406, 2415), (2534, 2543), (2662, 2671),
     (2790, 2799), (2918, 2927), (3046, 3055), (3174, 3183), (3302, 3311), (3430, 3439),
     (3558, 3567), (3664, 3673), (3792, 3801), (3872, 3881), (4160, 4169), (4240, 4249),
     (6112, 6121), (6160, 6169), (6470, 6479), (6608, 6617), (6784, 6793), (6800, 6809),
     (6992, 7001), (7088, 7097), (7232, 7241), (7248, 7257), (42528, 42537), (43216, 43225),
     (43264, 43273), (43472, 43481), (43504, 43513), (43600, 43609), (44016, 44025),
     (65296, 65305), (66720, 66729), (68912, 68921), (69734, 69743), (69872, 69881),
     (69942, 69951), (70096, 70105), (70384, 70393), (70736, 70745), (70864, 70873),
     (71248, 71257), (71360, 71369), (71472, 71481), (71904, 71913), (72016, 72025),
     (72784, 72793), (73040, 73049), (73120, 73129), (92768, 92777), (92864, 92873),
     (93008, 93017), (120782, 120831), (123200, 123209), (123632, 123641), (125264, 125273),
     (130032, 130041)]"

definition alnum_ranges :: "(nat \<times> nat) list" where
  "alnum_ranges =
    [(170, 170), (178, 179), (181, 181), (185, 186), (188, 190), (192, 214), (216, 246),
     (248, 705), (710, 721), (736, 740), (748, 748), (750, 750), (880, 884), (886, 887),
     (890, 893), (895, 895), (902, 902), (904, 906), (908, 908), (910, 929), (931, 1013),
     (1015, 1153), (1162, 1327), (1329, 1366), (1369, 1369), (1376, 1416), (1488, 1514),
     (1519, 1522), (1568, 1610), (1632, 1641), (1646, 1647), (1649, 1747), (1749, 1749),
     (1765, 1766), (1774, 1788), (1791, 1791), (1808, 1808), (1810, 1839), (1869, 1957),
     (1969, 1969), (1984, 2026), (2036, 2037), (2042, 2042), (2048, 2069), (2074, 2074),
     (2084, 2084), (2088, 2088), (2112, 2136), (2144, 2154), (2160, 2183), (2185, 2190),
     (2208, 2249), (2308, 2361), (2365, 2365), (2384, 2384), (2392, 2401), (2406, 2415),
     (2417, 2432), (2437, 2444), (2447, 2448), (2451, 2472), (2474, 2480), (2482, 2482),
     (2486, 2489), (2493, 2493), (2510, 2510), (2524, 2525), (2527, 2529), (2534, 2545),
     (2548, 2553), (2556, 2556), (2565, 2570), (2575, 2576), (2579, 2600), (2602, 2608),
     (2610, 2611), (2613, 2614), (2616, 2617), (2649, 2652), (2654, 2654), (2662, 2671),
     (2674, 2676), (2693, 2701), (2703, 2705), (2707, 2728), (2730, 2736), (2738, 2739),
     (2741, 2745), (2749, 2749), (2768, 2768), (2784, 2785), (2790, 2799), (2809, 2809),
     (2821, 2828), (2831, 2832), (2835, 2856), (2858, 2864), (2866, 2867), (2869, 2873),
     (2877, 2877), (2908, 2909), (2911, 2913), (2918, 2927), (2929, 2935), (2947, 2947),
     (2949, 2954), (2958, 2960), (2962, 2965), (2969, 2970), (2972, 2972), (2974, 2975),
     (2979, 2980), (2984, 2986), (2990, 3001), (3024, 3024), (3046, 3058), (3077, 3084),
     (3086, 3088), (3090, 3112), (3114, 3129), (3133, 3133), (3160, 3162), (3165, 3165),
     (3168, 3169), (3174, 3183), (3192, 3198), (3200, 3200), (3205, 3212), (3214, 3216),
     (3218, 3240), (3242, 3251), (3253, 3257), (3261, 3261), (3293, 3294), (3296, 3297),
     (3302, 3311), (3313, 3314), (3332, 3340), (3342, 3344), (3346, 3386), (3389, 3389),
     (3406, 3406), (3412, 3414), (3416, 3425), (3430, 3448), (3450, 3455), (3461, 3478),
     (3482, 3505), (3507, 3515), (3517, 3517), (3520, 3526), (3558, 3567), (3585, 3632),
     (3634, 3635), (3648, 3654), (3664, 3673), (3713, 3714), (3716, 3716), (3718, 3722),
     (3724, 3747), (3749, 3749), (3751, 3760), (3762, 3763), (3773, 3773), (3776, 3780),
     (3782, 3782), (3792, 3801), (3804, 3807), (3840, 3840), (3872, 3891), (3904, 3911),
     (3913, 3948), (3976, 3980), (4096, 4138), (4159, 4169), (4176, 4181), (4186, 4189),
     (4193, 4193), (4197, 4198), (4206, 4208), (4213, 4225), (4238, 4238), (4240, 4249),
     (4256, 4293), (4295, 4295), (4301, 4301), (4304, 4346), (4348, 4680), (4682, 4685),
     (4688, 4694), (4696, 4696), (4698, 4701), (4704, 4744), (4746, 4749), (4752, 4784),
     (4786, 4789), (4792, 4798), (4800, 4800), (4802, 4805), (4808, 4822), (4824, 4880),
     (4882, 4885), (4888, 4954), (4969, 4988), (4992, 5007), (5024, 5109), (5112, 5117),
     (5121, 5740), (5743, 5759), (5761, 5786), (5792, 5866), (5870, 5880), (5888, 5905),
     (5919, 5937), (5952, 5969), (5984, 5996), (5998, 6000), (6016, 6067), (6103, 6103),
     (6108, 6108), (6112, 6121), (6128, 6137), (6160, 6169), (6176, 6264), (6272, 6276),
     (6279, 6312), (6314, 6314), (6320, 6389), (6400, 6430), (6470, 6509), (6512, 6516),
     (6528, 6571), (6576, 6601), (6608, 6618), (6656, 6678), (6688, 6740), (6784, 6793),
     (6800, 6809), (6823, 6823), (6917, 6963), (6981, 6988), (6992, 7001), (7043, 7072),
     (7086, 7141), (7168, 7203), (7232, 7241), (7245, 7293), (7296, 7304), (7312, 7354),
     (7357, 7359), (7401, 7404), (7406, 7411), (7413, 7414), (7418, 7418), (7424, 7615),
     (7680, 7957), (7960, 7965), (7968, 8005), (8008, 8013), (8016, 8023), (8025, 8025),
     (8027, 8027), (8029, 8029), (8031, 8061), (8064, 8116), (8118, 8124), (8126, 8126),
     (8130, 8132), (8134, 8140), (8144, 8147), (8150, 8155), (8160, 8172), (8178, 8180),
     (8182, 8188), (8304, 8305), (8308, 8313), (8319, 8329), (8336, 8348), (8450, 8450),
     (8455, 8455), (8458, 8467), (8469, 8469), (8473, 8477), (8484, 8484), (8486, 8486),
     (8488, 8488), (8490, 8493), (8495, 8505), (8508, 8511), (8517, 8521), (8526, 8526),
     (8528, 8585), (9312, 9371), (9450, 9471), (10102, 10131), (11264, 11492), (11499, 11502),
     (11506, 11507), (11517, 11517), (11520, 11557), (11559, 11559), (11565, 11565),
     (11568, 11623), (11631, 11631), (11648, 11670), (11680, 11686), (11688, 11694),
     (11696, 11702), (11704, 11710), (11712, 11718), (11720, 11726), (11728, 11734),
     (11736, 11742), (11823, 11823), (12293, 12295), (12321, 12329), (12337, 12341),
     (12344, 12348), (12353, 12438), (12445, 12447), (12449, 12538), (12540, 12543),
     (12549, 12591), (12593, 12686), (12690, 12693), (12704, 12735), (12784, 12799),
     (12832, 12841), (12872, 12879), (12881, 12895), (12928, 12937), (12977, 12991),
     (13312, 19903), (19968, 42124), (42192, 42237), (42240, 42508), (42512, 42539),
     (42560, 42606), (42623, 42653), (42656, 42735), (42775, 42783), (42786, 42888),
     (42891, 42954), (42960, 42961), (42963, 42963), (42965, 42969), (42994, 43009),
     (43011, 43013), (43015, 43018), (43020, 43042), (43056, 43061), (43072, 43123),
     (43138, 43187), (43216, 43225), (43250, 43255), (43259, 43259), (43261, 43262),
     (43264, 43301), (43312, 43334), (43360, 43388), (43396, 43442), (43471, 43481),
     (43488, 43492), (43494, 43518), (43520, 43560), (43584, 43586), (43588, 43595),
     (43600, 43609), (43616, 43638), (43642, 43642), (43646, 43695), (43697, 43697),
     (43701, 43702), (43705, 43709), (43712, 43712), (43714, 43714), (43739, 43741),
     (43744, 43754), (43762, 43764), (43777, 43782), (43785, 43790), (43793, 43798),
     (43808, 43814), (43816, 43822), (43824, 43866), (43868, 43881), (43888, 44002),
     (44016, 44025), (44032, 55203), (55216, 55238), (55243, 55291), (63744, 64109),
     (64112, 64217), (64256, 64262), (64275, 64279), (64285, 64285), (64287, 64296),
     (64298, 64310), (64312, 64316), (64318, 64318), (64320, 64321), (64323, 64324),
     (64326, 64433), (64467, 64829), (64848, 64911), (64914, 64967), (65008, 65019),
     (65136, 65140), (65142, 65276), (65296, 65305), (65313, 65338), (65345, 65370),
     (65382, 65470), (65474, 65479), (65482, 65487), (65490, 65495), (65498, 65500),
     (65536, 65547), (65549, 65574), (65576, 65594), (65596, 65597), (65599, 65613),
     (65616, 65629), (65664, 65786), (65799, 65843), (65856, 65912), (65930, 65931),
     (66176, 66204), (66208, 66256), (66273, 66299), (66304, 66339), (66349, 66378),
     (66384, 66421), (66432, 66461), (66464, 66499), (66504, 66511), (66513, 66517),
     (66560, 66717), (66720, 66729), (66736, 66771), (66776, 66811), (66816, 66855),
     (66864, 66915), (66928, 66938), (66940, 66954), (66956, 66962), (66964, 66965),
     (66967, 66977), (66979, 66993), (66995, 67001), (67003, 67004), (67072, 67382),
     (67392, 67413), (67424, 67431), (67456, 67461), (67463, 67504), (67506, 67514),
     (67584, 67589), (67592, 67592), (67594, 67637), (67639, 67640), (67644, 67644),
     (67647, 67669), (67672, 67702), (67705, 67742), (67751, 67759), (67808, 67826),
     (67828, 67829), (67835, 67867), (67872, 67897), (67968, 68023), (68028, 68047),
     (68050, 68096), (68112, 68115), (68117, 68119), (68121, 68149), (68160, 68168),
     (68192, 68222), (68224, 68255), (68288, 68295), (68297, 68324), (68331, 68335),
     (68352, 68405), (68416, 68437), (68440, 68466), (68472, 68497), (68521, 68527),
     (68608, 68680), (68736, 68786), (68800, 68850), (68858, 68899), (68912, 68921),
     (69216, 69246), (69248, 69289), (69296, 69297), (69376, 69415), (69424, 69445),
     (69457, 69460), (69488, 69505), (69552, 69579), (69600, 69622), (69635, 69687),
     (69714, 69743), (69745, 69746), (69749, 69749), (69763, 69807), (69840, 69864),
     (69872, 69881), (69891, 69926), (69942, 69951), (69956, 69956), (69959, 69959),
     (69968, 70002), (70006, 70006), (70019, 70066), (70081, 70084), (70096, 70106),
     (70108, 70108), (70113, 70132), (70144, 70161), (70163, 70187), (70272, 70278),
     (70280, 70280), (70282, 70285), (70287, 70301), (70303, 70312), (70320, 70366),
     (70384, 70393), (70405, 70412), (70415, 70416), (70419, 70440), (70442, 70448),
     (70450, 70451), (70453, 70457), (70461, 70461), (70480, 70480), (70493, 70497),
     (70656, 70708), (70727, 70730), (70736, 70745), (70751, 70753), (70784, 70831),
     (70852, 70853), (70855, 70855), (70864, 70873), (71040, 71086), (71128, 71131),
     (71168, 71215), (71236, 71236), (71248, 71257), (71296, 71338), (71352, 71352),
     (71360, 71369), (71424, 71450), (71472, 71483), (71488, 71494), (71680, 71723),
     (71840, 71922), (71935, 71942), (71945, 71945), (71948, 71955), (71957, 71958),
     (71960, 71983), (71999, 71999), (72001, 72001), (72016, 72025), (72096, 72103),
     (72106, 72144), (72161, 72161), (72163, 72163), (72192, 72192), (72203, 72242),
     (72250, 72250), (72272, 72272), (72284, 72329), (72349, 72349), (72368, 72440),
     (72704, 72712), (72714, 72750), (72768, 72768), (72784, 72812), (72818, 72847),
     (72960, 72966), (72968, 72969), (72971, 73008), (73030, 73030), (73040, 73049),
     (73056, 73061), (73063, 73064), (73066, 73097), (73112, 73112), (73120, 73129),
     (73440, 73458), (73648, 73648), (73664, 73684), (73728, 74649), (74752, 74862),
     (74880, 75075), (77712, 77808), (77824, 78894), (82944, 83526), (92160, 92728),
     (92736, 92766), (92768, 92777), (92784, 92862), (92864, 92873), (92880, 92909),
     (92928, 92975), (92992, 92995), (93008, 93017), (93019, 93025), (93027, 93047),
     (93053, 93071), (93760, 93846), (93952, 94026), (94032, 94032), (94099, 94111),
     (94176, 94177), (94179, 94179), (94208, 100343), (100352, 101589), (101632, 101640),
     (110576, 110579), (110581, 110587), (110589, 110590), (110592, 110882), (110928, 110930),
     (110948, 110951), (110960, 111355), (113664, 113770), (113776, 113788), (113792, 113800),
     (113808, 113817), (119520, 119539), (119648, 119672), (119808, 119892), (119894, 119964),
     (119966, 119967), (119970, 119970), (119973, 119974), (119977, 119980), (119982, 119993),
     (119995, 119995), (119997, 120003), (120005, 120069), (120071, 120074), (120077, 120084),
     (120086, 120092), (120094, 120121), (120123, 120126), (120128, 120132), (120134, 120134),
     (120138, 120144), (120146, 120485), (120488, 120512), (120514, 120538), (120540, 120570),
     (120572, 120596), (120598, 120628), (120630, 120654), (120656, 120686), (120688, 120712),
     (120714, 120744), (120746, 120770), (120772, 120779), (120782, 120831), (122624, 122654),
     (123136, 123180), (123191, 123197), (123200, 123209), (123214, 123214), (123536, 123565),
     (123584, 123627), (123632, 123641), (124896, 124902), (124904, 124907), (124909, 124910),
     (124912, 124926), (124928, 125124), (125127, 125135), (125184, 125251), (125259, 125259),
     (125264, 125273), (126065, 126123), (126125, 126127), (126129, 126132), (126209, 126253),
     (126255, 126269), (126464, 126467), (126469, 126495), (126497, 126498), (126500, 126500),
     (126503, 126503), (126505, 126514), (126516, 126519), (126521, 126521), (126523, 126523),
     (126530, 126530), (126535, 126535), (126537, 126537), (126539, 126539), (126541, 126543),
     (126545, 126546), (126548, 126548), (126551, 126551), (126553, 126553), (126555, 126555),
     (126557, 126557), (126559, 126559), (126561, 126562), (126564, 126564), (126567, 126570),
     (126572, 126578), (126580, 126583), (126585, 126588), (126590, 126590), (126592, 126601),
     (126603, 126619), (126625, 126627), (126629, 126633), (126635, 126651), (127232, 127244),
     (130032, 130041), (131072, 173791), (173824, 177976), (177984, 178205), (178208, 183969),
     (183984, 191456), (194560, 195101), (196608, 201546)]"

definition is_decimal :: "uchar \<Rightarrow> bool" where
  "is_decimal c = (if c < 128 then is_ascii_digit c else in_ranges c decimal_ranges)"

definition is_ascii_letter :: "uchar \<Rightarrow> bool" where
  "is_ascii_letter c = ((65 \<le> c \<and> c \<le> 90) \<or> (97 \<le> c \<and> c \<le> 122))"

definition is_word :: "uchar \<Rightarrow> bool" where
  "is_word c =
     (if c < 128 then is_ascii_digit c \<or> is_ascii_letter c \<or> c = 95
      else in_ranges c alnum_ranges)"

subsection \<open>Case-insensitive matching\<close>

text \<open>
  With \<open>re.IGNORECASE\<close> the engine lower-cases the character of the text with the simple
  lower-case mapping of Unicode (\<open>_sre.unicode_tolower\<close>) and compares it with the
  lower-cased characters of the pattern and with their extra equivalents
  (\<open>re._casefix._EXTRA_CASES\<close>). An entry \<open>(lo, hi, target, step)\<close> of the table maps
  \<open>lo\<close>, \<open>lo + step\<close>, ... up to \<open>hi\<close> to \<open>target\<close>, \<open>target + step\<close>, ...
\<close>

definition lower_table :: "(nat \<times> nat \<times> nat \<times> nat) list" where
  "lower_table =
    [(192, 214, 224, 1), (216, 222, 248, 1), (256, 302, 257, 2), (304, 304, 105, 1),
     (306, 310, 307, 2), (313, 327, 314, 2), (330, 374, 331, 2), (376, 376, 255, 1),
     (377, 381, 378, 2), (385, 385, 595, 1), (386, 388, 387, 2), (390, 390, 596, 1),
     (391, 391, 392, 1), (393, 394, 598, 1), (395, 395, 396, 1), (398, 398, 477, 1),
     (399, 399, 601, 1), (400, 400, 603, 1), (401, 401, 402, 1), (403, 403, 608, 1),
     (404, 404, 611, 1), (406, 406, 617, 1), (407, 407, 616, 1), (408, 408, 409, 1),
     (412, 412, 623, 1), (413, 413, 626, 1), (415, 415, 629, 1), (416, 420, 417, 2),
     (422, 422, 640, 1), (423, 423, 424, 1), (425, 425, 643, 1), (428, 428, 429, 1),
     (430, 430, 648, 1), (431, 431, 432, 1), (433, 434, 650, 1), (435, 437, 436, 2),
     (439, 439, 658, 1), (440, 440, 441, 1), (444, 444, 445, 1), (452, 452, 454, 1),
     (453, 453, 454, 1), (455, 455, 457, 1), (456, 456, 457, 1), (458, 458, 460, 1),
     (459, 475, 460, 2), (478, 494, 479, 2), (497, 497, 499, 1), (498, 500, 499, 2),
     (502, 502, 405, 1), (503, 503, 447, 1), (504, 542, 505, 2), (544, 544, 414, 1),
     (546, 562, 547, 2), (570, 570, 11365, 1), (571, 571, 572, 1), (573, 573, 410, 1),
     (574, 574, 11366, 1), (577, 577, 578, 1), (579, 579, 384, 1), (580, 580, 649, 1),
     (581, 581, 652, 1), (582, 590, 583, 2), (880, 882, 881, 2), (886, 886, 887, 1),
     (895, 895, 1011, 1), (902, 902, 940, 1), (904, 906, 941, 1), (908, 908, 972, 1),
     (910, 911, 973, 1), (913, 929, 945, 1), (931, 939, 963, 1), (975, 975, 983, 1),
     (984, 1006, 985, 2), (1012, 1012, 952, 1), (1015, 1015, 1016, 1), (1017, 1017, 1010, 1),
     (1018, 1018, 1019, 1), (1021, 1023, 891, 1), (1024, 1039, 1104, 1), (1040, 1071, 1072, 1),
     (1120, 1152, 1121, 2), (1162, 1214, 1163, 2), (1216, 1216, 1231, 1), (1217, 1229, 1218, 2),
     (1232, 1326, 1233, 2), (1329, 1366, 1377, 1), (4256, 4293, 11520, 1), (4295, 4295, 11559, 1),
     (4301, 4301, 11565, 1), (5024, 5103, 43888, 1), (5104, 5109, 5112, 1), (7312, 7354, 4304, 1),
     (7357, 7359, 4349, 1), (7680, 7828, 7681, 2), (7838, 7838, 223, 1), (7840, 7934, 7841, 2),
     (7944, 7951, 7936, 1), (7960, 7965, 7952, 1), (7976, 7983, 7968, 1), (7992, 7999, 7984, 1),
     (8008, 8013, 8000, 1), (8025, 8031, 8017, 2), (8040, 8047, 8032, 1), (8072, 8079, 8064, 1),
     (8088, 8095, 8080, 1), (8104, 8111, 8096, 1), (8120, 8121, 8112, 1), (8122, 8123, 8048, 1),
     (8124, 8124, 8115, 1), (8136, 8139, 8050, 1), (8140, 8140, 8131, 1), (8152, 8153, 8144, 1),
     (8154, 8155, 8054, 1), (8168, 8169, 8160, 1), (8170, 8171, 8058, 1), (8172, 8172, 8165, 1),
     (8184, 8185, 8056, 1), (8186, 8187, 8060, 1), (8188, 8188, 8179, 1), (8486, 8486, 969, 1),
     (8490, 8490, 107, 1), (8491, 8491, 229, 1), (8498, 8498, 8526, 1), (8544, 8559, 8560, 1),
     (8579, 8579, 8580, 1), (9398, 9423, 9424, 1), (11264, 11311, 11312, 1),
     (11360, 11360, 11361, 1), (11362, 11362, 619, 1), (11363, 11363, 7549, 1),
     (11364, 11364, 637, 1), (11367, 11371, 11368, 2), (11373, 11373, 593, 1),
     (11374, 11374, 625, 1), (11375, 11375, 592, 1), (11376, 11376, 594, 1),
     (11378, 11378, 11379, 1), (11381, 11381, 11382, 1), (11390, 11391, 575, 1),
     (11392, 11490, 11393, 2), (11499, 11501, 11500, 2), (11506, 11506, 11507, 1),
     (42560, 42604, 42561, 2), (42624, 42650, 42625, 2), (42786, 42798, 42787, 2),
     (42802, 42862, 42803, 2), (42873, 42875, 42874, 2), (42877, 42877, 7545, 1),
     (42878, 42886, 42879, 2), (42891, 42891, 42892, 1), (42893, 42893, 613, 1),
     (42896, 42898, 42897, 2), (42902, 42920, 42903, 2), (42922, 42922, 614, 1),
     (42923, 42923, 604, 1), (42924, 42924, 609, 1), (42925, 42925, 620, 1),
     (42926, 42926, 618, 1), (42928, 42928, 670, 1), (42929, 42929, 647, 1),
     (42930, 42930, 669, 1), (42931, 42931, 43859, 1), (42932, 42946, 42933, 2),
     (42948, 42948, 42900, 1), (42949, 42949, 642, 1), (42950, 42950, 7566, 1),
     (42951, 42953, 42952, 2), (42960, 42960, 42961, 1), (42966, 42968, 42967, 2),
     (42997, 42997, 42998, 1), (65313, 65338, 65345, 1), (66560, 66599, 66600, 1),
     (66736, 66771, 66776, 1), (66928, 66938, 66967, 1), (66940, 66954, 66979, 1),
     (66956, 66962, 66995, 1), (66964, 66965, 67003, 1), (68736, 68786, 68800, 1),
     (71840, 71871, 71872, 1), (93760, 93791, 93792, 1), (125184, 125217, 125218, 1)]"

definition ignorecase_fixes :: "(nat \<times> nat list) list" where
  "ignorecase_fixes =
    [(105, [305]), (115, [383]), (181, [956]), (305, [105]), (383, [115]), (837, [953, 8126]),
     (912, [8147]), (944, [8163]), (946, [976]), (949, [1013]), (952, [977]), (953, [837, 8126]),
     (954, [1008]), (956, [181]), (960, [982]), (961, [1009]), (962, [963]), (963, [962]),
     (966, [981]), (976, [946]), (977, [952]), (981, [966]), (982, [960]), (1008, [954]),
     (1009, [961]), (1013, [949]), (1074, [7296]), (1076, [7297]), (1086, [7298]), (1089, [7299]),
     (1090, [7300, 7301]), (1098, [7302]), (1123, [7303]), (7296, [1074]), (7297, [1076]),
     (7298, [1086]), (7299, [1089]), (7300, [1090, 7301]), (7301, [1090, 7300]), (7302, [1098]),
     (7303, [1123]), (7304, [42571]), (7777, [7835]), (7835, [7777]), (8126, [837, 953]),
     (8147, [912]), (8163, [944]), (42571, [7304]), (64261, [64262]), (64262, [64261])]"

fun lookup_lower :: "uchar \<Rightarrow> (nat \<times> nat \<times> nat \<times> nat) list \<Rightarrow> uchar" where
  "lookup_lower c [] = c"
| "lookup_lower c ((lo, hi, target, step) # es) =
     (if lo \<le> c \<and> c \<le> hi \<and> (c - lo) mod step = 0 then target + (c - lo)
      else lookup_lower c es)"

definition unicode_tolower :: "uchar \<Rightarrow> uchar" where
  "unicode_tolower c =
     (if c < 128 then (if 65 \<le> c \<and> c \<le> 90 then c + 32 else c)
      else lookup_lower c lower_table)"

definition extra_cases :: "uchar \<Rightarrow> uchar list" where
  "extra_cases c = (case map_of ignorecase_fixes c of None \<Rightarrow> [] | Some ks \<Rightarrow> ks)"

text \<open>
  The compiler asks whether a character of the pattern is cased. Every pattern that the
  source compiles with \<open>re.IGNORECASE\<close> is ASCII, where the cased characters are the
  letters.
\<close>

definition iscased :: "uchar \<Rightarrow> bool" where
  "iscased c = is_ascii_letter c"

subsection \<open>Patterns\<close>

text \<open>
  The patterns of the source use literal characters, character sets, \<open>.\<close>, repetition of
  a single character or set (greedy or lazy, with bounds), sequence, alternation, capturing
  groups, a lookahead, \<open>^\<close>, \<open>$\<close> and \<open>\b\<close>. A literal character is the set of that
  character.
\<close>

datatype item = Chr uchar | Rng uchar uchar | Digit | Space

datatype atom = In "item list" | Any

datatype regex =
    Eps
  | Atom atom
  | Rep bool nat "nat option" atom
  | Seq regex regex
  | Alt regex regex
  | Group nat regex
  | Look regex
  | Bol
  | Eol
  | Wordb

record flags =
  ignorecase :: bool
  dotall :: bool

fun item_match :: "item \<Rightarrow> uchar \<Rightarrow> bool" where
  "item_match (Chr p) c = (c = p)"
| "item_match (Rng a b) c = (a \<le> c \<and> c \<le> b)"
| "item_match Digit c = is_decimal c"
| "item_match Space c = is_space c"

fun item_cased :: "item \<Rightarrow> bool" where
  "item_cased (Chr p) = iscased p"
| "item_cased (Rng a b) = list_ex iscased [a..<Suc b]"
| "item_cased Digit = False"
| "item_cased Space = False"

text \<open>
  The set as compiled for case-insensitive matching: each literal and each member of a
  range is lower-cased and joined by its extra equivalents. The argument is the lower-cased
  character of the text.
\<close>

definition lowered :: "uchar \<Rightarrow> uchar \<Rightarrow> bool" where
  "lowered p c = (c = unicode_tolower p \<or> c \<in> set (extra_cases (unicode_tolower p)))"

fun item_match_ignorecase :: "item \<Rightarrow> uchar \<Rightarrow> bool" where
  "item_match_ignorecase (Chr p) c = lowered p c"
| "item_match_ignorecase (Rng a b) c = list_ex (\<lambda>p. lowered p c) [a..<Suc b]"
| "item_match_ignorecase Digit c = is_decimal c"
| "item_match_ignorecase Space c = is_space c"

fun atom_match :: "flags \<Rightarrow> atom \<Rightarrow> uchar \<Rightarrow> bool" where
  "atom_match f Any c = (if dotall f then True else c \<noteq> 10)"
| "atom_match f (In items) c =
     (if ignorecase f \<and> list_ex item_cased items
      then list_ex (\<lambda>i. item_match_ignorecase i (unicode_tolower c)) items
      else list_ex (\<lambda>i. item_match i c) items)"

subsection \<open>The backtracking matcher\<close>

text \<open>
  The matcher works at a position of the text: the character before it (\<open>None\<close> at the
  start of the text) and the rest of the text from it. It tries the alternatives in the
  order of the \<open>re\<close> module and hands each way of matching to a continuation; the first
  way that the continuation accepts is the match. A greedy repetition takes one more
  character before it tries to stop, a lazy one tries to stop first.
\<close>

type_synonym 'a cont = "uchar option \<Rightarrow> str \<Rightarrow> 'a option"

fun decr :: "nat option \<Rightarrow> nat option" where
  "decr None = None"
| "decr (Some n) = Some (n - 1)"

fun rep_greedy :: "(uchar \<Rightarrow> bool) \<Rightarrow> nat \<Rightarrow> nat option \<Rightarrow> uchar option \<Rightarrow> str \<Rightarrow> 'a cont \<Rightarrow> 'a option"
where
  "rep_greedy P lo hi prev [] k = (if lo = 0 then k prev [] else None)"
| "rep_greedy P lo hi prev (x # xs) k =
     (if hi \<noteq> Some 0 \<and> P x then
        (case rep_greedy P (lo - 1) (decr hi) (Some x) xs k of
           Some r \<Rightarrow> Some r
         | None \<Rightarrow> if lo = 0 then k prev (x # xs) else None)
      else if lo = 0 then k prev (x # xs) else None)"

fun rep_lazy :: "(uchar \<Rightarrow> bool) \<Rightarrow> nat \<Rightarrow> nat option \<Rightarrow> uchar option \<Rightarrow> str \<Rightarrow> 'a cont \<Rightarrow> 'a option"
where
  "rep_lazy P lo hi prev [] k = (if lo = 0 then k prev [] else None)"
| "rep_lazy P lo hi prev (x # xs) k =
     (if lo = 0 then
        (case k prev (x # xs) of
           Some r \<Rightarrow> Some r
         | None \<Rightarrow>
             if hi \<noteq> Some 0 \<and> P x then rep_lazy P lo (decr hi) (Some x) xs k else None)
      else if hi \<noteq> Some 0 \<and> P x then rep_lazy P (lo - 1) (decr hi) (Some x) xs k
      else None)"

text \<open>
  \<open>\b\<close> holds where exactly one of the two neighbours is a word character; the start
  and the end of the text count as non-word. \<open>$\<close> holds at the end of the text and before
  a newline that ends it; \<open>^\<close> holds at the start (the source never sets
  \<open>re.MULTILINE\<close>).
\<close>

definition word_before :: "uchar option \<Rightarrow> bool" where
  "word_before prev = (case prev of None \<Rightarrow> False | Some c \<Rightarrow> is_word c)"

definition word_after :: "str \<Rightarrow> bool" where
  "word_after s = (case s of [] \<Rightarrow> False | c # _ \<Rightarrow> is_word c)"

type_synonym caps = "nat \<Rightarrow> str option"

fun match_re :: "flags \<Rightarrow> regex \<Rightarrow> uchar option \<Rightarrow> str \<Rightarrow> caps
            \<Rightarrow> (uchar option \<Rightarrow> str \<Rightarrow> caps \<Rightarrow> (caps \<times> str) option) \<Rightarrow> (caps \<times> str) option"
where
  "match_re f Eps prev s c k = k prev s c"
| "match_re f (Atom a) prev s c k =
     (case s of [] \<Rightarrow> None | x # xs \<Rightarrow> if atom_match f a x then k (Some x) xs c else None)"
| "match_re f (Rep greedy lo hi a) prev s c k =
     (if greedy then rep_greedy (atom_match f a) lo hi prev s (\<lambda>prev' s'. k prev' s' c)
      else rep_lazy (atom_match f a) lo hi prev s (\<lambda>prev' s'. k prev' s' c))"
| "match_re f (Seq r1 r2) prev s c k = match_re f r1 prev s c (\<lambda>prev' s' c'. match_re f r2 prev' s' c' k)"
| "match_re f (Alt r1 r2) prev s c k =
     (case match_re f r1 prev s c k of Some res \<Rightarrow> Some res | None \<Rightarrow> match_re f r2 prev s c k)"
| "match_re f (Group n r) prev s c k =
     match_re f r prev s c (\<lambda>prev' s' c'. k prev' s' (c'(n := Some (take (length s - length s') s))))"
| "match_re f (Look r) prev s c k =
     (case match_re f r prev s c (\<lambda>prev' s' c'. Some (c', s')) of
        None \<Rightarrow> None
      | Some (c', _) \<Rightarrow> k prev s c')"
| "match_re f Bol prev s c k = (if prev = None then k prev s c else None)"
| "match_re f Eol prev s c k = (if s = [] \<or> s = [10] then k prev s c else None)"
| "match_re f Wordb prev s c k = (if word_before prev \<noteq> word_after s then k prev s c else None)"

text \<open>
  A match at a position: the groups and the text after the match. \<open>re.match\<close> tries the
  start of the text only, \<open>re.search\<close> every position from the left, the end of the text
  included.
\<close>

definition match_here :: "flags \<Rightarrow> regex \<Rightarrow> uchar option \<Rightarrow> str \<Rightarrow> (caps \<times> str) option" where
  "match_here f r prev s = match_re f r prev s (\<lambda>_. None) (\<lambda>prev' s' c'. Some (c', s'))"

definition re_match :: "flags \<Rightarrow> regex \<Rightarrow> str \<Rightarrow> caps option" where
  "re_match f r s = map_option fst (match_here f r None s)"

fun search_from :: "flags \<Rightarrow> regex \<Rightarrow> uchar option \<Rightarrow> str \<Rightarrow> caps option" where
  "search_from f r prev [] = map_option fst (match_here f r prev [])"
| "search_from f r prev (x # xs) =
     (case match_here f r prev (x # xs) of
        Some (c, _) \<Rightarrow> Some c
      | None \<Rightarrow> search_from f r (Some x) xs)"

definition re_search :: "flags \<Rightarrow> regex \<Rightarrow> str \<Rightarrow> caps option" where
  "re_search f r s = search_from f r None s"

text \<open>
  \<open>re.sub\<close> and \<open>re.split\<close> go through the text from the left; after a match they
  go on at its end. \<open>skip\<close> counts the characters of the current match that are still to
  be passed. Every pattern that the source gives to \<open>re.sub\<close> or \<open>re.split\<close> needs at
  least one character, so the rules of \<open>re\<close> for an empty match never apply; the model
  passes over an empty match.
\<close>

definition match_length :: "flags \<Rightarrow> regex \<Rightarrow> uchar option \<Rightarrow> str \<Rightarrow> nat option" where
  "match_length f r prev s = map_option (\<lambda>(c, s'). length s - length s') (match_here f r prev s)"

fun sub_from :: "flags \<Rightarrow> regex \<Rightarrow> str \<Rightarrow> nat \<Rightarrow> uchar option \<Rightarrow> str \<Rightarrow> str" where
  "sub_from f r repl skip prev [] = []"
| "sub_from f r repl skip prev (x # xs) =
     (if 0 < skip then sub_from f r repl (skip - 1) (Some x) xs
      else
        case match_length f r prev (x # xs) of
          None \<Rightarrow> x # sub_from f r repl 0 (Some x) xs
        | Some n \<Rightarrow>
            if n = 0 then x # sub_from f r repl 0 (Some x) xs
            else repl @ sub_from f r repl (n - 1) (Some x) xs)"

definition re_sub :: "flags \<Rightarrow> regex \<Rightarrow> str \<Rightarrow> str \<Rightarrow> str" where
  "re_sub f r repl s = sub_from f r repl 0 None s"

fun push :: "uchar \<Rightarrow> str list \<Rightarrow> str list" where
  "push x [] = [[x]]"
| "push x (w # ws) = (x # w) # ws"

fun split_from :: "flags \<Rightarrow> regex \<Rightarrow> nat \<Rightarrow> uchar option \<Rightarrow> str \<Rightarrow> str list" where
  "split_from f r skip prev [] = [[]]"
| "split_from f r skip prev (x # xs) =
     (if 0 < skip then split_from f r (skip - 1) (Some x) xs
      else
        case match_length f r prev (x # xs) of
          None \<Rightarrow> push x (split_from f r 0 (Some x) xs)
        | Some n \<Rightarrow>
            if n = 0 then push x (split_from f r 0 (Some x) xs)
            else [] # split_from f r (n - 1) (Some x) xs)"

definition re_split :: "flags \<Rightarrow> regex \<Rightarrow> str \<Rightarrow> str list" where
  "re_split f r s = split_from f r 0 None s"

subsection \<open>Writing patterns\<close>

definition ch :: "char \<Rightarrow> item" where
  "ch c = Chr (of_char c)"

fun lit :: "string \<Rightarrow> regex" where
  "lit [] = Eps"
| "lit [c] = Atom (In [ch c])"
| "lit (c # cs) = Seq (Atom (In [ch c])) (lit cs)"

fun seqs :: "regex list \<Rightarrow> regex" where
  "seqs [] = Eps"
| "seqs [r] = r"
| "seqs (r # rs) = Seq r (seqs rs)"

fun alts :: "regex list \<Rightarrow> regex" where
  "alts [] = Eps"
| "alts [r] = r"
| "alts (r # rs) = Alt r (alts rs)"

definition rep_star :: "atom \<Rightarrow> regex" where
  "rep_star a = Rep True 0 None a"

definition rep_plus :: "atom \<Rightarrow> regex" where
  "rep_plus a = Rep True 1 None a"

definition rep_lazy_star :: "atom \<Rightarrow> regex" where
  "rep_lazy_star a = Rep False 0 None a"

definition rep_opt :: "atom \<Rightarrow> regex" where
  "rep_opt a = Rep True 0 (Some 1) a"

definition rep_times :: "nat \<Rightarrow> atom \<Rightarrow> regex" where
  "rep_times n a = Rep True n (Some n) a"

definition rep_between :: "nat \<Rightarrow> nat \<Rightarrow> atom \<Rightarrow> regex" where
  "rep_between lo hi a = Rep True lo (Some hi) a"

definition no_flags :: flags where
  "no_flags = \<lparr>ignorecase = False, dotall = False\<rparr>"

definition IGNORECASE :: flags where
  "IGNORECASE = \<lparr>ignorecase = True, dotall = False\<rparr>"


subsection \<open>Groups that take part in every match\<close>

text \<open>
  A group outside every alternation and repetition is set by every match of the
  pattern.
\<close>

fun sure_groups :: "regex \<Rightarrow> nat set" where
  "sure_groups (Seq r1 r2) = sure_groups r1 \<union> sure_groups r2"
| "sure_groups (Alt r1 r2) = sure_groups r1 \<inter> sure_groups r2"
| "sure_groups (Group n r) = insert n (sure_groups r)"
| "sure_groups (Look r) = sure_groups r"
| "sure_groups r = {}"

section \<open>The field parser\<close>

subsection \<open>More string methods\<close>

text \<open>\<open>s.split(sep)\<close> for a separator of one character: empty pieces are kept.\<close>

fun split_on :: "uchar \<Rightarrow> str \<Rightarrow> str list" where
  "split_on sep [] = [[]]"
| "split_on sep (x # xs) =
     (if x = sep then [] # split_on sep xs else push x (split_on sep xs))"

text \<open>\<open>s.split()\<close>: the maximal runs of characters that are not white space.\<close>

fun split_ws :: "str \<Rightarrow> str list" where
  "split_ws [] = []"
| "split_ws [x] = (if is_space x then [] else [[x]])"
| "split_ws (x # y # ys) =
     (if is_space x then split_ws (y # ys)
      else if is_space y then [x] # split_ws (y # ys)
      else push x (split_ws (y # ys)))"

text \<open>
  \<open>s.lower()\<close> maps each character with the full lower-case mapping of Unicode, which
  is the simple one except on U+0130. (The rule for a final capital sigma is left out: the
  source lower-cases its own ASCII phrases and lines of ASCII letters, white space,
  apostrophes and hyphens, and the rest of a gender token.)
  \<open>s.capitalize()\<close> puts the first character in title case, which for an ASCII letter
  is its upper case, and lower-cases the rest; the source capitalizes a gender token, whose
  first character is an ASCII letter.
\<close>

definition lower_char :: "uchar \<Rightarrow> str" where
  "lower_char c = (if c = 304 then [105, 775] else [unicode_tolower c])"

definition lower :: "str \<Rightarrow> str" where
  "lower s = concat (map lower_char s)"

definition title_char :: "uchar \<Rightarrow> str" where
  "title_char c = (if 97 \<le> c \<and> c \<le> 122 then [c - 32] else [c])"

fun capitalize :: "str \<Rightarrow> str" where
  "capitalize [] = []"
| "capitalize (c # cs) = title_char c @ lower cs"

subsection \<open>Exceptions the parser could raise\<close>

text \<open>
  \<open>m.group(n)\<close> is \<open>None\<close> when group \<open>n\<close> took no part in the match, and the method
  that the source calls on it next raises \<open>AttributeError\<close>; where the source stores the
  group in a field directly, \<open>None\<close> would land in a field declared \<open>str\<close>. The model
  counts both as a failure. \<open>xs[0]\<close> raises \<open>IndexError\<close> on an empty list.
\<close>

datatype py_error = AttributeError | IndexError

definition group :: "caps \<Rightarrow> nat \<Rightarrow> py_error + str" where
  "group mt n = (case mt n of None \<Rightarrow> Inl AttributeError | Some g \<Rightarrow> Inr g)"

fun first_item :: "'a list \<Rightarrow> py_error + 'a" where
  "first_item [] = Inl IndexError"
| "first_item (x # xs) = Inr x"

definition and_then :: "py_error + 'a \<Rightarrow> ('a \<Rightarrow> py_error + 'b) \<Rightarrow> py_error + 'b" where
  "and_then r f = (case r of Inl e \<Rightarrow> Inl e | Inr x \<Rightarrow> f x)"

subsection \<open>The record\<close>

record AadhaarData =
  aadhaar_number :: str
  name_tamil :: str
  name :: str
  guardian_name :: str
  dob :: str
  gender :: str
  address :: str
  district :: str
  state :: str
  pincode :: str
  phone :: str
  vid :: str

definition empty_data :: AadhaarData where
  "empty_data =
     \<lparr>aadhaar_number = [], name_tamil = [], name = [], guardian_name = [], dob = [],
      gender = [], address = [], district = [], state = [], pincode = [], phone = [],
      vid = []\<rparr>"

subsection \<open>The patterns of the source\<close>

definition digit :: atom where "digit = In [Digit]"
definition space :: atom where "space = In [Space]"

text \<open>\<^verbatim>\<open>[A-Za-z\s\'-]\<close>, \<^verbatim>\<open>[:\s]\<close>, \<^verbatim>\<open>[.:]\<close> and \<^verbatim>\<open>[-/]\<close>.\<close>

definition name_chars :: atom where
  "name_chars = In [Rng 65 90, Rng 97 122, Space, ch CHR 0x27, ch CHR ''-'']"

definition colon_or_space :: atom where
  "colon_or_space = In [ch CHR '':'', Space]"

definition dot_or_colon :: atom where
  "dot_or_colon = In [ch CHR ''.'', ch CHR '':'']"

definition dash_or_slash :: atom where
  "dash_or_slash = In [ch CHR ''-'', ch CHR ''/'']"

text \<open>\<^verbatim>\<open>\d{4}\s\d{4}\s\d{4}\<close>\<close>

definition three_groups :: regex where
  "three_groups =
     seqs [rep_times 4 digit, Atom space, rep_times 4 digit, Atom space, rep_times 4 digit]"

text \<open>\<^verbatim>\<open>r'\b(\d{4}\s\d{4}\s\d{4})\b'\<close>\<close>

definition aadhaar_re :: regex where
  "aadhaar_re = seqs [Wordb, Group 1 three_groups, Wordb]"

text \<open>\<^verbatim>\<open>r'VID[:\s]*(\d{4}\s\d{4}\s\d{4}\s\d{4})'\<close>\<close>

definition vid_re :: regex where
  "vid_re =
     seqs [lit ''VID'', rep_star colon_or_space,
           Group 1 (seqs [rep_times 4 digit, Atom space, rep_times 4 digit, Atom space,
                          rep_times 4 digit, Atom space, rep_times 4 digit])]"

text \<open>\<^verbatim>\<open>r'([\u0B80-\u0BFF\s]+)\n([A-Za-z\s\'-]+)'\<close>\<close>

definition tamil_name_re :: regex where
  "tamil_name_re =
     seqs [Group 1 (rep_plus (In [Rng 0xB80 0xBFF, Space])), lit ''\<newline>'',
           Group 2 (rep_plus name_chars)]"

text \<open>\<^verbatim>\<open>r'\s*(?:S/O|C/O|W/O|D/O)\s*'\<close>, with \<open>re.IGNORECASE\<close>\<close>

definition marker_re :: regex where
  "marker_re =
     seqs [rep_star space, alts [lit ''S/O'', lit ''C/O'', lit ''W/O'', lit ''D/O''],
           rep_star space]"

text \<open>\<^verbatim>\<open>r'\s+[CWSD]\s*$'\<close>\<close>

definition initial_re :: regex where
  "initial_re =
     seqs [rep_plus space, Atom (In [ch CHR ''C'', ch CHR ''W'', ch CHR ''S'', ch CHR ''D'']),
           rep_star space, Eol]"

text \<open>\<^verbatim>\<open>r'\s+'\<close> and \<^verbatim>\<open>r'\n+'\<close>\<close>

definition spaces_re :: regex where
  "spaces_re = rep_plus space"

definition newlines_re :: regex where
  "newlines_re = rep_plus (In [ch CHR ''\<newline>''])"

text \<open>\<^verbatim>\<open>r'^[A-Za-z\s\'-]+$'\<close>\<close>

definition name_line_re :: regex where
  "name_line_re = seqs [Bol, rep_plus name_chars, Eol]"

text \<open>
  \<^verbatim>\<open>r'(S/o|C/o|D/o|W/o)[.:]?\s*([A-Za-z\s\'-]+)'\<close>, with \<open>re.IGNORECASE\<close>; in the
  address clean-up the same pattern without the second group.
\<close>

definition guardian_re :: regex where
  "guardian_re =
     seqs [Group 1 (alts [lit ''S/o'', lit ''C/o'', lit ''D/o'', lit ''W/o'']),
           rep_opt dot_or_colon, rep_star space, Group 2 (rep_plus name_chars)]"

definition guardian_clause_re :: regex where
  "guardian_clause_re =
     seqs [Group 1 (alts [lit ''S/o'', lit ''C/o'', lit ''D/o'', lit ''W/o'']),
           rep_opt dot_or_colon, rep_star space, rep_plus name_chars]"

text \<open>
  \<^verbatim>\<open>r'(DOB|Date of Birth|D\\.O\\.B)[:\s]*?(\d{1,2}[-/]\d{1,2}[-/]\d{4})'\<close>, with
  \<open>re.IGNORECASE\<close>. In a raw string \<^verbatim>\<open>\\.\<close> is a literal backslash followed by any
  character.
\<close>

definition dob_re :: regex where
  "dob_re =
     seqs [Group 1 (alts [lit ''DOB'', lit ''Date of Birth'',
                          seqs [lit ''D'', Atom (In [Chr 92]), Atom Any,
                                lit ''O'', Atom (In [Chr 92]), Atom Any, lit ''B'']]),
           rep_lazy_star colon_or_space,
           Group 2 (seqs [rep_between 1 2 digit, Atom dash_or_slash, rep_between 1 2 digit,
                          Atom dash_or_slash, rep_times 4 digit])]"

text \<open>\<^verbatim>\<open>r'\b(Male|Female|Transgender|M|F|T)\b'\<close>, with \<open>re.IGNORECASE\<close>\<close>

definition gender_re :: regex where
  "gender_re =
     seqs [Wordb,
           Group 1 (alts [lit ''Male'', lit ''Female'', lit ''Transgender'', lit ''M'',
                          lit ''F'', lit ''T'']),
           Wordb]"

text \<open>
  \<^verbatim>\<open>r'(?i)address[:\s]*(.*?)(?=\nDistrict|\nState|\n\d{6}|\nVID|\nDigitally|$)'\<close>, with
  \<open>re.DOTALL\<close>
\<close>

definition address_flags :: flags where
  "address_flags = \<lparr>ignorecase = True, dotall = True\<rparr>"

definition address_re :: regex where
  "address_re =
     seqs [lit ''address'', rep_star colon_or_space, Group 1 (rep_lazy_star Any),
           Look (alts [lit ''\<newline>District'', lit ''\<newline>State'',
                       seqs [lit ''\<newline>'', rep_times 6 digit],
                       lit ''\<newline>VID'', lit ''\<newline>Digitally'', Eol])]"

text \<open>
  \<^verbatim>\<open>r'\b\d{4}\s\d{4}\s\d{4}\b'\<close>, \<^verbatim>\<open>r'PO:.*?,'\<close> and
  \<^verbatim>\<open>r'(?i)\b(dist|state)\b.*'\<close>
\<close>

definition number_re :: regex where
  "number_re = seqs [Wordb, three_groups, Wordb]"

definition post_office_re :: regex where
  "post_office_re = seqs [lit ''PO:'', rep_lazy_star Any, lit '','']"

definition dist_state_re :: regex where
  "dist_state_re =
     seqs [Wordb, Group 1 (alts [lit ''dist'', lit ''state'']), Wordb, rep_star Any]"

text \<open>
  \<^verbatim>\<open>r'District[:\s]*(.*)'\<close> and \<^verbatim>\<open>r'State[:\s]*(.*)'\<close>, with \<open>re.IGNORECASE\<close>
\<close>

definition district_re :: regex where
  "district_re = seqs [lit ''District'', rep_star colon_or_space, Group 1 (rep_star Any)]"

definition state_re :: regex where
  "state_re = seqs [lit ''State'', rep_star colon_or_space, Group 1 (rep_star Any)]"

text \<open>\<^verbatim>\<open>r'\b(\d{6})\b'\<close> and \<^verbatim>\<open>r'\b(\d{10})\b'\<close>\<close>

definition pincode_re :: regex where
  "pincode_re = seqs [Wordb, Group 1 (rep_times 6 digit), Wordb]"

definition phone_re :: regex where
  "phone_re = seqs [Wordb, Group 1 (rep_times 10 digit), Wordb]"

subsection \<open>\<open>extract_name_from_text\<close>\<close>

text \<open>
  \<^verbatim>\<open>
  for line in lines:
      clean_line = line.strip()
      if (re.match(r'^[A-Za-z\s\'-]+$', clean_line)
          and len(clean_line.split()) > 1
          and all(phrase.lower() not in clean_line.lower() for phrase in unwanted_phrases)):
          name_part = re.split(r'\s*(?:S/O|C/O|W/O|D/O)\s*', clean_line,
                               flags=re.IGNORECASE)[0]
          name_part = re.sub(r'\s+[CWSD]\s*$', '', name_part).strip()
          name_part = re.sub(r'\s+', ' ', name_part)
          return name_part
  return ""
  \<close>
\<close>

definition unwanted_phrases :: "str list" where
  "unwanted_phrases =
     [u ''Digitally signed by DS Unique'', u ''Identification Authority of India'',
      u ''Government of India'', u ''Signature Not Verified'']"

definition is_name_line :: "str \<Rightarrow> bool" where
  "is_name_line clean_line =
     (re_match no_flags name_line_re clean_line \<noteq> None
      \<and> 1 < length (split_ws clean_line)
      \<and> list_all (\<lambda>phrase. \<not> contains (lower clean_line) (lower phrase)) unwanted_phrases)"

fun extract_name_from_text :: "str list \<Rightarrow> py_error + str" where
  "extract_name_from_text [] = Inr []"
| "extract_name_from_text (line # lines) =
     (let clean_line = strip line in
      if is_name_line clean_line then
        and_then (first_item (re_split IGNORECASE marker_re clean_line))
          (\<lambda>name_part.
             let name_part = strip (re_sub no_flags initial_re [] name_part);
                 name_part = re_sub no_flags spaces_re (u '' '') name_part
             in Inr name_part)
      else extract_name_from_text lines)"

subsection \<open>\<open>parse_aadhaar_details\<close>\<close>

text \<open>
  Each block of the function is a step on the record. The order is that of the source.
  \<^verbatim>\<open>
  aadhaar_match = re.search(r'\b(\d{4}\s\d{4}\s\d{4})\b', text)
  if aadhaar_match:
      aadhaar_number = aadhaar_match.group(1)
      if validate_aadhaar(aadhaar_number.replace(" ", "")):
          data.aadhaar_number = aadhaar_number
      else:
          data.aadhaar_number = aadhaar_number
  \<close>
\<close>

definition parse_aadhaar_number :: "str \<Rightarrow> AadhaarData \<Rightarrow> py_error + AadhaarData" where
  "parse_aadhaar_number text data =
     (case re_search no_flags aadhaar_re text of
        None \<Rightarrow> Inr data
      | Some aadhaar_match \<Rightarrow>
          and_then (group aadhaar_match 1)
            (\<lambda>number.
               if validate_aadhaar (replace 32 [] number)
               then Inr (data\<lparr>aadhaar_number := number\<rparr>)
               else Inr (data\<lparr>aadhaar_number := number\<rparr>)))"

text \<open>
  \<^verbatim>\<open>
  vid_match = re.search(r'VID[:\s]*(\d{4}\s\d{4}\s\d{4}\s\d{4})', text)
  if vid_match:
      data.vid = vid_match.group(1)
  \<close>
\<close>

definition parse_vid :: "str \<Rightarrow> AadhaarData \<Rightarrow> py_error + AadhaarData" where
  "parse_vid text data =
     (case re_search no_flags vid_re text of
        None \<Rightarrow> Inr data
      | Some vid_match \<Rightarrow> and_then (group vid_match 1) (\<lambda>g. Inr (data\<lparr>vid := g\<rparr>)))"

text \<open>
  \<^verbatim>\<open>
  tamil_name_match = re.search(r'([\u0B80-\u0BFF\s]+)\n([A-Za-z\s\'-]+)', text)
  if tamil_name_match:
      data.name_tamil = tamil_name_match.group(1).strip()
      data.name = tamil_name_match.group(2).strip().replace("\n", " ")
      data.name = re.split(r'\s*(?:S/O|C/O|W/O|D/O)\s*', data.name,
                           flags=re.IGNORECASE)[0].strip()
      data.name = re.sub(r'\s+[CWSD]\s*$', '', data.name).strip()
      data.name = re.sub(r'\s+', ' ', data.name)
  if not data.name:
      data.name = extract_name_from_text(lines)
  \<close>
\<close>

definition parse_tamil_name :: "str \<Rightarrow> AadhaarData \<Rightarrow> py_error + AadhaarData" where
  "parse_tamil_name text data =
     (case re_search no_flags tamil_name_re text of
        None \<Rightarrow> Inr data
      | Some tamil_name_match \<Rightarrow>
          and_then (group tamil_name_match 1) (\<lambda>g1.
          and_then (group tamil_name_match 2) (\<lambda>g2.
          let data = data\<lparr>name_tamil := strip g1\<rparr>;
              data = data\<lparr>name := replace 10 (u '' '') (strip g2)\<rparr>
          in and_then (first_item (re_split IGNORECASE marker_re (name data))) (\<lambda>head.
          let data = data\<lparr>name := strip head\<rparr>;
              data = data\<lparr>name := strip (re_sub no_flags initial_re [] (name data))\<rparr>;
              data = data\<lparr>name := re_sub no_flags spaces_re (u '' '') (name data)\<rparr>
          in Inr data))))"

definition parse_name_fallback :: "str list \<Rightarrow> AadhaarData \<Rightarrow> py_error + AadhaarData" where
  "parse_name_fallback lines data =
     (if name data = [] then
        and_then (extract_name_from_text lines) (\<lambda>n. Inr (data\<lparr>name := n\<rparr>))
      else Inr data)"

text \<open>
  \<^verbatim>\<open>
  guardian_match = re.search(r'(S/o|C/o|D/o|W/o)[.:]?\s*([A-Za-z\s\'-]+)', text, re.IGNORECASE)
  if guardian_match:
      data.guardian_name = guardian_match.group(2).strip()
  \<close>
\<close>

definition parse_guardian_name :: "str \<Rightarrow> AadhaarData \<Rightarrow> py_error + AadhaarData" where
  "parse_guardian_name text data =
     (case re_search IGNORECASE guardian_re text of
        None \<Rightarrow> Inr data
      | Some guardian_match \<Rightarrow>
          and_then (group guardian_match 2) (\<lambda>g. Inr (data\<lparr>guardian_name := strip g\<rparr>)))"

text \<open>
  \<^verbatim>\<open>
  dob_match = re.search(r'(DOB|Date of Birth|D\\.O\\.B)[:\s]*?(\d{1,2}[-/]\d{1,2}[-/]\d{4})',
                        text, re.IGNORECASE)
  if dob_match:
      data.dob = dob_match.group(2).replace('-', '/')
  \<close>
\<close>

definition parse_dob :: "str \<Rightarrow> AadhaarData \<Rightarrow> py_error + AadhaarData" where
  "parse_dob text data =
     (case re_search IGNORECASE dob_re text of
        None \<Rightarrow> Inr data
      | Some dob_match \<Rightarrow>
          and_then (group dob_match 2) (\<lambda>g. Inr (data\<lparr>dob := replace 45 (u ''/'') g\<rparr>)))"

text \<open>
  \<^verbatim>\<open>
  gender_match = re.search(r'\b(Male|Female|Transgender|M|F|T)\b', text, re.IGNORECASE)
  if gender_match:
      data.gender = gender_match.group(1).capitalize()
  \<close>
\<close>

definition parse_gender :: "str \<Rightarrow> AadhaarData \<Rightarrow> py_error + AadhaarData" where
  "parse_gender text data =
     (case re_search IGNORECASE gender_re text of
        None \<Rightarrow> Inr data
      | Some gender_match \<Rightarrow>
          and_then (group gender_match 1) (\<lambda>g. Inr (data\<lparr>gender := capitalize g\<rparr>)))"

text \<open>
  \<^verbatim>\<open>
  address_match = re.search(
      r'(?i)address[:\s]*(.*?)(?=\nDistrict|\nState|\n\d{6}|\nVID|\nDigitally|$)',
      text, re.DOTALL)
  if address_match:
      address_text = re.sub(r'(S/o|C/o|D/o|W/o)[.:]?\s*[A-Za-z\s\'-]+', '',
                            address_match.group(1).strip(), flags=re.IGNORECASE)
      address_text = re.sub(r'\b\d{4}\s\d{4}\s\d{4}\b', '', address_text)
      address_text = re.sub(r'PO:.*?,', '', address_text)
      address_text = re.sub(r'(?i)\b(dist|state)\b.*', '', address_text)
      address_text = re.sub(r'\n+', ' ', address_text).strip()
      address_text = re.sub(r'\s+', ' ', address_text).strip()
      data.address = address_text
  \<close>
\<close>

definition parse_address :: "str \<Rightarrow> AadhaarData \<Rightarrow> py_error + AadhaarData" where
  "parse_address text data =
     (case re_search address_flags address_re text of
        None \<Rightarrow> Inr data
      | Some address_match \<Rightarrow>
          and_then (group address_match 1) (\<lambda>g.
          let address_text = re_sub IGNORECASE guardian_clause_re [] (strip g);
              address_text = re_sub no_flags number_re [] address_text;
              address_text = re_sub no_flags post_office_re [] address_text;
              address_text = re_sub IGNORECASE dist_state_re [] address_text;
              address_text = strip (re_sub no_flags newlines_re (u '' '') address_text);
              address_text = strip (re_sub no_flags spaces_re (u '' '') address_text)
          in Inr (data\<lparr>address := address_text\<rparr>)))"

text \<open>
  \<^verbatim>\<open>
  district_match = re.search(r'District[:\s]*(.*)', text, re.IGNORECASE)
  if district_match:
      data.district = district_match.group(1).strip().replace(',', '')
  state_match = re.search(r'State[:\s]*(.*)', text, re.IGNORECASE)
  if state_match:
      data.state = state_match.group(1).strip().rstrip(',')
  \<close>
\<close>

definition parse_district :: "str \<Rightarrow> AadhaarData \<Rightarrow> py_error + AadhaarData" where
  "parse_district text data =
     (case re_search IGNORECASE district_re text of
        None \<Rightarrow> Inr data
      | Some district_match \<Rightarrow>
          and_then (group district_match 1)
            (\<lambda>g. Inr (data\<lparr>district := replace 44 [] (strip g)\<rparr>)))"

definition parse_state :: "str \<Rightarrow> AadhaarData \<Rightarrow> py_error + AadhaarData" where
  "parse_state text data =
     (case re_search IGNORECASE state_re text of
        None \<Rightarrow> Inr data
      | Some state_match \<Rightarrow>
          and_then (group state_match 1)
            (\<lambda>g. Inr (data\<lparr>state := rstrip_char 44 (strip g)\<rparr>)))"

text \<open>
  \<^verbatim>\<open>
  pincode_match = re.search(r'\b(\d{6})\b', text)
  if pincode_match:
      data.pincode = pincode_match.group(1)
  phone_match = re.search(r'\b(\d{10})\b', text)
  if phone_match:
      data.phone = phone_match.group(1)
  \<close>
\<close>

definition parse_pincode :: "str \<Rightarrow> AadhaarData \<Rightarrow> py_error + AadhaarData" where
  "parse_pincode text data =
     (case re_search no_flags pincode_re text of
        None \<Rightarrow> Inr data
      | Some pincode_match \<Rightarrow>
          and_then (group pincode_match 1) (\<lambda>g. Inr (data\<lparr>pincode := g\<rparr>)))"

definition parse_phone :: "str \<Rightarrow> AadhaarData \<Rightarrow> py_error + AadhaarData" where
  "parse_phone text data =
     (case re_search no_flags phone_re text of
        None \<Rightarrow> Inr data
      | Some phone_match \<Rightarrow>
          and_then (group phone_match 1) (\<lambda>g. Inr (data\<lparr>phone := g\<rparr>)))"

text \<open>
  \<^verbatim>\<open>
  data = AadhaarData()
  lines = [line.strip() for line in text.split("\n") if line.strip()]
  \<close>
\<close>

definition text_lines :: "str \<Rightarrow> str list" where
  "text_lines text = map strip (filter (\<lambda>line. strip line \<noteq> []) (split_on 10 text))"

definition parse_aadhaar_details :: "str \<Rightarrow> py_error + AadhaarData" where
  "parse_aadhaar_details text =
     (let data = empty_data; lines = text_lines text in
      and_then (parse_aadhaar_number text data) (\<lambda>data.
      and_then (parse_vid text data) (\<lambda>data.
      and_then (parse_tamil_name text data) (\<lambda>data.
      and_then (parse_name_fallback lines data) (\<lambda>data.
      and_then (parse_guardian_name text data) (\<lambda>data.
      and_then (parse_dob text data) (\<lambda>data.
      and_then (parse_gender text data) (\<lambda>data.
      and_then (parse_address text data) (\<lambda>data.
      and_then (parse_district text data) (\<lambda>data.
      and_then (parse_state text data) (\<lambda>data.
      and_then (parse_pincode text data) (\<lambda>data.
      and_then (parse_phone text data) (\<lambda>data. Inr data)))))))))))))"

subsection \<open>Example texts\<close>

text \<open>The text of the scenario of the specification.\<close>

definition scenario :: str where
  "scenario =
     u ''1234 5678 9012\<newline>John Smith\<newline>S/O Robert Smith\<newline>DOB: 01-02-1990\<newline>Male\<newline>Address: 12 Main St\<newline>District: Chennai\<newline>State: Tamil Nadu\<newline>600001\<newline>9876543210''"

text \<open>
  A district line with a comma inside, and the word \<open>Transgender\<close> written with the long s
  (U+017F) in place of the \<open>s\<close>.
\<close>

definition district_line :: str where
  "district_line = u ''District: Chennai, Tamil Nadu''"

definition long_s_transgender :: str where
  "long_s_transgender = u ''Tran'' @ [383] @ u ''gender''"

section \<open>Basic facts\<close>

lemma u_simps [simp]: "u [] = []" "u (c # cs) = of_char c # u cs"
  by (simp_all add: u_def)

lemma length_u [simp]: "length (u s) = length s"
  by (simp add: u_def)

lemma replace_nil_filter: "replace c [] s = filter (\<lambda>x. x \<noteq> c) s"
  by (induction s) (simp_all add: replace_def)

section \<open>The validator\<close>

text \<open>
  C6, as the code has it: \<open>validate_aadhaar s\<close> is true exactly when \<open>s\<close> without its
  space characters is non-empty, twelve characters long and made of characters that
  \<open>str.isdigit\<close> accepts. These are the ASCII digits on ASCII input, where the validator
  is true exactly on twelve ASCII digits.
\<close>

theorem validate_aadhaar_iff:
  "(validate_aadhaar s \<longleftrightarrow>
      (let t = filter (\<lambda>c. c \<noteq> 32) s
       in t \<noteq> [] \<and> list_all is_digit t \<and> length t = 12))
   \<and> (list_all (\<lambda>c. c < 128) s \<longrightarrow>
        (validate_aadhaar s \<longleftrightarrow>
           (let t = filter (\<lambda>c. c \<noteq> 32) s
            in t \<noteq> [] \<and> list_all is_ascii_digit t \<and> length t = 12)))"
proof -
  have general: "validate_aadhaar s \<longleftrightarrow>
      (let t = filter (\<lambda>c. c \<noteq> 32) s
       in t \<noteq> [] \<and> list_all is_digit t \<and> length t = 12)"
    by (auto simp add: validate_aadhaar_def isdigit_def replace_nil_filter Let_def)
  have ascii: "list_all is_digit (filter (\<lambda>c. c \<noteq> 32) s)
                 = list_all is_ascii_digit (filter (\<lambda>c. c \<noteq> 32) s)"
    if "list_all (\<lambda>c. c < 128) s"
    using that by (induction s) (simp_all add: is_digit_def)
  show ?thesis
    using general ascii by (simp add: Let_def)
qed

theorem validate_aadhaar_iff_witness:
  "list_all (\<lambda>c. c < 128) (u ''1234 5678 9012'')
   \<and> validate_aadhaar (u ''1234 5678 9012'')
   \<and> \<not> validate_aadhaar (u ''1234 5678 901'')"
  using validate_aadhaar_iff [of "u ''1234 5678 9012''"]
        validate_aadhaar_iff [of "u ''1234 5678 901''"]
  by (simp add: is_ascii_digit_def is_digit_def)

text \<open>
  The twelve Tamil digits 1234 5678 9012 (U+0BE7 and following) are not ASCII digits, and
  the validator accepts them.
\<close>

theorem validate_aadhaar_tamil_digits:
  "validate_aadhaar [3047, 3048, 3049, 3050, 32, 3051, 3052, 3053, 3054, 32, 3055, 3046, 3047, 3048]
   \<and> \<not> list_all is_ascii_digit
         (filter (\<lambda>c. c \<noteq> 32)
            [3047, 3048, 3049, 3050, 32, 3051, 3052, 3053, 3054, 32, 3055, 3046, 3047, 3048])"
  by (simp add: validate_aadhaar_def replace_def isdigit_def is_digit_def digit_ranges_def
      is_ascii_digit_def)

text \<open>
  C7: a space inserted at any split point does not change the validator's answer:
  \<open>validate_aadhaar (a + " " + b) = validate_aadhaar (a + b)\<close>.
\<close>

theorem validate_aadhaar_space_insensitive:
  "validate_aadhaar (a @ u '' '' @ b) = validate_aadhaar (a @ b)"
  by (simp add: validate_aadhaar_def replace_nil_filter)

section \<open>Text acquisition\<close>

subsection \<open>The value of a computation\<close>

lemma fst_io_return [simp]: "fst (io_return x) = Inr x"
  by (simp add: io_return_def)

lemma fst_io_raise [simp]: "fst (io_raise e) = Inl e"
  by (simp add: io_raise_def)

lemma fst_call [simp]: "fst (call ev r) = r"
  by (simp add: call_def)

lemma fst_io_bind:
  "fst (io_bind m f) = (case fst m of Inl e \<Rightarrow> Inl e | Inr x \<Rightarrow> fst (f x))"
  by (simp add: io_bind_def split: prod.splits sum.splits)

lemma fst_try_except:
  "fst (try_except m h) = (case fst m of Inl e \<Rightarrow> fst (h e) | Inr x \<Rightarrow> Inr x)"
  by (simp add: try_except_def split: prod.splits sum.splits)

lemma close_document_returns: "\<exists>x. fst (close_document opened) = Inr x"
  by (simp add: close_document_def fst_try_except split: sum.splits)

lemma fst_try_finally_close: "fst (try_finally m (close_document opened)) = fst m"
  using close_document_returns [of opened]
  by (auto simp add: try_finally_def split: prod.splits sum.splits)

subsection \<open>The page loop and the whole function\<close>

lemma fst_extract_pages:
  "fst (extract_pages pgs acc) =
     (case native_text pgs of Inl e \<Rightarrow> Inl e | Inr t \<Rightarrow> Inr (acc @ t))"
  by (induction pgs arbitrary: acc)
     (simp_all add: fst_io_bind fst_try_except split: sum.splits)

lemma native_text_Inr:
  "native_text pgs = Inr t \<Longrightarrow> \<exists>ts. map get_text pgs = map Inr ts \<and> t = concat ts"
proof (induction pgs arbitrary: t)
  case Nil
  then show ?case by simp
next
  case (Cons pg pgs)
  from Cons.prems obtain t1 t2 where
    pg: "get_text pg = Inr t1" and rest: "native_text pgs = Inr t2" and t: "t = t1 @ t2"
    by (auto split: sum.splits)
  from Cons.IH [OF rest] obtain ts where "map get_text pgs = map Inr ts" "t2 = concat ts"
    by blast
  with pg t have "map get_text (pg # pgs) = map Inr (t1 # ts) \<and> t = concat (t1 # ts)"
    by simp
  then show ?case by blast
qed

lemma fst_process_document:
  "fst (process_document chk doc password) =
     (case fst (chk doc password) of
        Inl e \<Rightarrow> Inl e
      | Inr _ \<Rightarrow>
         (case native_text (pages doc) of
            Inl e \<Rightarrow> Inl e
          | Inr t \<Rightarrow>
              if strip t = [] then Inl (u ''No text could be extracted from the PDF'')
              else Inr t))"
  by (simp add: process_document_def fst_io_bind fst_extract_pages split: sum.splits)

lemma fst_extract_text_opened:
  assumes "pdf_bytes \<noteq> []" and "fitz_open pdf_bytes = Inr doc"
  shows "fst (extract_text_with chk fitz_open pdf_bytes password) =
     (case fst (process_document chk doc password) of
        Inl e \<Rightarrow> fst (reraise e :: str io)
      | Inr t \<Rightarrow> Inr t)"
  using assms
  by (simp add: extract_text_with_def fst_try_finally_close fst_try_except fst_io_bind Let_def)

lemma fst_extract_text_not_opened:
  assumes "pdf_bytes = [] \<or> fitz_open pdf_bytes = Inl e"
  shows "\<exists>msg. fst (extract_text_with chk fitz_open pdf_bytes password) = Inl msg"
  using assms
  by (auto simp add: extract_text_with_def fst_try_finally_close fst_try_except fst_io_bind
      Let_def reraise_def)

lemma fst_reraise_Inl: "\<exists>msg. fst (reraise e :: str io) = Inl msg"
  by (simp add: reraise_def)

lemma fst_handle_password_unencrypted:
  "\<not> needs_pass doc \<Longrightarrow>
     fst (handle_password doc password) =
       (if password_value password = [] then Inr ()
        else Inl (u ''PDF is not encrypted, password not required''))"
  by (simp add: handle_password_def Let_def fst_io_bind)

lemma fst_reraise_page_error:
  "fst (reraise (u ''Error extracting text from page '' @ e) :: str io) =
     Inl (u ''Failed to process PDF: '' @ u ''Error extracting text from page '' @ e)"
  by (simp add: reraise_def startswith_any_def startswith_def)

lemma native_text_Inl:
  "native_text pgs = Inl e \<Longrightarrow> \<exists>e'. e = u ''Error extracting text from page '' @ e'"
  by (induction pgs) (auto split: sum.splits)

text \<open>
  C2, as the code has it: \<open>extract_text_from_pdf\<close> has no OCR fallback. Once the password
  check has passed, its result is a function of the text layers of the pages alone: a page
  with an empty text layer contributes the empty string, the first page whose extraction
  raises makes acquisition fail with \<open>Failed to process PDF: Error extracting text from
  page N: ...\<close>, and text that is empty after trimming fails with \<open>No text could be
  extracted from the PDF\<close>. What OCR would read on a page is never part of the result.
\<close>

theorem extract_text_native_only:
  assumes "pdf_bytes \<noteq> []" and "fitz_open pdf_bytes = Inr doc"
    and "fst (handle_password doc password) = Inr ()"
  shows "fst (extract_text_from_pdf fitz_open pdf_bytes password) =
     (case native_text (pages doc) of
        Inl e \<Rightarrow> Inl (u ''Failed to process PDF: '' @ e)
      | Inr t \<Rightarrow>
          if strip t = [] then Inl (u ''No text could be extracted from the PDF'')
          else Inr t)"
proof (cases "native_text (pages doc)")
  case (Inl e)
  then obtain e' where "e = u ''Error extracting text from page '' @ e'"
    using native_text_Inl by blast
  with Inl assms show ?thesis
    by (simp add: extract_text_from_pdf_def fst_extract_text_opened fst_process_document
        fst_reraise_page_error del: u_simps)
next
  case (Inr t)
  with assms show ?thesis
    by (simp add: extract_text_from_pdf_def fst_extract_text_opened fst_process_document
        reraise_def startswith_any_def startswith_def)
qed

theorem extract_text_native_only_witness:
  "[1 :: 8 word] \<noteq> [] \<and> (\<lambda>_. Inr scanned_doc) [1 :: 8 word] = Inr scanned_doc
   \<and> fst (handle_password scanned_doc None) = Inr ()
   \<and> fst (extract_text_from_pdf (\<lambda>_. Inr scanned_doc) [1] None)
       = Inl (u ''No text could be extracted from the PDF'')"
proof -
  have pw: "fst (handle_password scanned_doc None) = Inr ()"
    by (simp add: fst_handle_password_unencrypted scanned_doc_def password_value_def)
  have "fst (extract_text_from_pdf (\<lambda>_. Inr scanned_doc) [1] None)
       = Inl (u ''No text could be extracted from the PDF'')"
    using extract_text_native_only [of "[1]" "\<lambda>_. Inr scanned_doc" scanned_doc None, OF _ _ pw]
    by (simp add: scanned_doc_def strip_def rstrip_def lstrip_def)
  with pw show ?thesis by simp
qed

text \<open>
  The claim as stated fails on a document whose second page is a scan: acquisition
  returns the text layer of the first page, and the line OCR would read on the second
  page is not in it.
\<close>

theorem extract_text_half_scanned:
  "fst (extract_text_from_pdf (\<lambda>_. Inr half_scanned_doc) [1] None) = Inr (u ''Name: A\<newline>'')
   \<and> \<not> contains (u ''Name: A\<newline>'') (u ''DOB: 01/01/1990\<newline>'')"
proof -
  have "fst (handle_password half_scanned_doc None) = Inr ()"
    by (simp add: fst_handle_password_unencrypted half_scanned_doc_def password_value_def)
  then have "fst (extract_text_from_pdf (\<lambda>_. Inr half_scanned_doc) [1] None)
               = Inr (u ''Name: A\<newline>'')"
    by (simp add: extract_text_from_pdf_def fst_extract_text_opened fst_process_document
        half_scanned_doc_def strip_def rstrip_def lstrip_def is_space_def space_ranges_def)
  moreover have "\<not> contains (u ''Name: A\<newline>'') (u ''DOB: 01/01/1990\<newline>'')"
    by (simp add: startswith_def)
  ultimately show ?thesis by simp
qed

text \<open>
  C3, as the code has it: for an unencrypted document and a non-empty password,
  acquisition fails whatever the password is and returns no text, and the error it raises
  is the generic wrapper, with the message \<open>Failed to process PDF: PDF is not encrypted,
  password not required\<close>: the handler re-raises unchanged only the messages that start
  with \<open>Password required\<close>, \<open>Invalid password\<close> or \<open>No text could be\<close>.
\<close>

theorem extract_text_password_not_needed:
  assumes "pdf_bytes \<noteq> []" and "fitz_open pdf_bytes = Inr doc" and "\<not> needs_pass doc"
    and "pw \<noteq> []"
  shows "fst (extract_text_from_pdf fitz_open pdf_bytes (Some pw)) =
           Inl (u ''Failed to process PDF: PDF is not encrypted, password not required'')"
  using assms
  by (simp add: extract_text_from_pdf_def fst_extract_text_opened fst_process_document
      fst_handle_password_unencrypted password_value_def reraise_def startswith_any_def
      startswith_def)

theorem extract_text_password_not_needed_witness:
  "[1 :: 8 word] \<noteq> [] \<and> (\<lambda>_. Inr text_doc) [1 :: 8 word] = Inr text_doc
   \<and> \<not> needs_pass text_doc \<and> u ''1990'' \<noteq> []
   \<and> fst (extract_text_from_pdf (\<lambda>_. Inr text_doc) [1] (Some (u ''1990''))) =
        Inl (u ''Failed to process PDF: PDF is not encrypted, password not required'')"
  using extract_text_password_not_needed [of "[1]" "\<lambda>_. Inr text_doc" text_doc "u ''1990''"]
  by (simp add: text_doc_def)

text \<open>
  The claim as stated fails: the error raised for an unencrypted document and the
  password \<open>secret\<close> is not the error with the message \<open>PDF is not encrypted, password not
  required\<close> but the wrapper around it.
\<close>

theorem extract_text_password_not_needed_wrapped:
  "fst (extract_text_from_pdf (\<lambda>_. Inr text_doc) [1] (Some (u ''secret'')))
     \<noteq> Inl (u ''PDF is not encrypted, password not required'')
   \<and> (\<exists>e. fst (extract_text_from_pdf (\<lambda>_. Inr text_doc) [1] (Some (u ''secret'')))
           = Inl (u ''Failed to process PDF: '' @ e))"
proof -
  have "fst (extract_text_from_pdf (\<lambda>_. Inr text_doc) [1] (Some (u ''secret''))) =
          Inl (u ''Failed to process PDF: '' @ u ''PDF is not encrypted, password not required'')"
    by (simp add: extract_text_from_pdf_def fst_extract_text_opened fst_process_document
      fst_handle_password_unencrypted password_value_def reraise_def startswith_any_def
      startswith_def text_doc_def)
  then show ?thesis by simp
qed

text \<open>
  C4, as the code has it: the text that acquisition returns is the concatenation of the
  texts of the pages in page order, with nothing added between two pages.
\<close>

theorem extract_text_concatenates:
  assumes "fst (extract_text_from_pdf fitz_open pdf_bytes password) = Inr text"
  shows "\<exists>doc ts. fitz_open pdf_bytes = Inr doc
           \<and> map get_text (pages doc) = map Inr ts \<and> text = concat ts"
proof -
  have nonempty: "pdf_bytes \<noteq> []"
  proof
    assume "pdf_bytes = []"
    then obtain msg where "fst (extract_text_from_pdf fitz_open pdf_bytes password) = Inl msg"
      using fst_extract_text_not_opened [of pdf_bytes fitz_open undefined handle_password password]
      by (auto simp add: extract_text_from_pdf_def)
    with assms show False by simp
  qed
  obtain doc where doc: "fitz_open pdf_bytes = Inr doc"
  proof (cases "fitz_open pdf_bytes")
    case (Inl e)
    then obtain msg where "fst (extract_text_from_pdf fitz_open pdf_bytes password) = Inl msg"
      using fst_extract_text_not_opened [of pdf_bytes fitz_open e handle_password password]
      by (auto simp add: extract_text_from_pdf_def)
    with assms show ?thesis by simp
  next
    case (Inr d)
    then show ?thesis using that by blast
  qed
  have "fst (process_document handle_password doc password) = Inr text"
  proof (cases "fst (process_document handle_password doc password)")
    case (Inl e)
    obtain msg where "fst (reraise e :: str io) = Inl msg"
      using fst_reraise_Inl by blast
    with Inl assms nonempty doc show ?thesis
      by (simp add: extract_text_from_pdf_def fst_extract_text_opened)
  next
    case (Inr t)
    with assms nonempty doc show ?thesis
      by (simp add: extract_text_from_pdf_def fst_extract_text_opened)
  qed
  then have "native_text (pages doc) = Inr text"
    by (auto simp add: fst_process_document split: sum.splits if_splits)
  then obtain ts where "map get_text (pages doc) = map Inr ts" "text = concat ts"
    using native_text_Inr by blast
  with doc show ?thesis by blast
qed

theorem extract_text_concatenates_witness:
  "fst (extract_text_from_pdf (\<lambda>_. Inr text_doc) [1] None)
     = Inr (u ''Name: A\<newline>DOB: 01/01/1990\<newline>'')
   \<and> (\<exists>doc ts. (\<lambda>_. Inr text_doc) [1 :: 8 word] = Inr doc
           \<and> map get_text (pages doc) = map Inr ts
           \<and> u ''Name: A\<newline>DOB: 01/01/1990\<newline>'' = concat ts)"
proof -
  have "fst (handle_password text_doc None) = Inr ()"
    by (simp add: fst_handle_password_unencrypted text_doc_def password_value_def)
  then have run: "fst (extract_text_from_pdf (\<lambda>_. Inr text_doc) [1] None)
     = Inr (u ''Name: A\<newline>DOB: 01/01/1990\<newline>'')"
    by (simp add: extract_text_from_pdf_def fst_extract_text_opened fst_process_document
        text_doc_def strip_def rstrip_def lstrip_def is_space_def space_ranges_def)
  from extract_text_concatenates [OF run] run show ?thesis by simp
qed

text \<open>
  The claim as stated fails on the same document: joining the texts of its two pages with
  a newline gives a text with an empty line between them, which is not what acquisition
  returns.
\<close>

theorem extract_text_not_newline_joined:
  "fst (extract_text_from_pdf (\<lambda>_. Inr text_doc) [1] None)
     \<noteq> Inr (join (u ''\<newline>'') [u ''Name: A\<newline>'', u ''DOB: 01/01/1990\<newline>''])"
proof -
  have "fst (handle_password text_doc None) = Inr ()"
    by (simp add: fst_handle_password_unencrypted text_doc_def password_value_def)
  then have "fst (extract_text_from_pdf (\<lambda>_. Inr text_doc) [1] None)
     = Inr (u ''Name: A\<newline>DOB: 01/01/1990\<newline>'')"
    by (simp add: extract_text_from_pdf_def fst_extract_text_opened fst_process_document
        text_doc_def strip_def rstrip_def lstrip_def is_space_def space_ranges_def)
  then show ?thesis by simp
qed

text \<open>
  C9: the authentication check written after the \<open>raise\<close> in the branch for an unencrypted
  document with a password is dead code. The function with the check removed returns or
  raises the same on every input and makes the same library calls in the same order; a
  run of the check would add an \<open>Authenticate\<close> call to that list.
\<close>

theorem extract_text_dead_check:
  "extract_text_from_pdf fitz_open pdf_bytes password
     = extract_text_from_pdf_pruned fitz_open pdf_bytes password"
proof -
  have "handle_password = handle_password_pruned"
    by (auto simp add: fun_eq_iff handle_password_def handle_password_pruned_def io_bind_def
        io_raise_def Let_def)
  then show ?thesis
    by (simp add: extract_text_from_pdf_def extract_text_from_pdf_pruned_def)
qed

section \<open>Evaluating the matcher\<close>

text \<open>
  Closed forms of the character tests, so that a match on a concrete text is computed
  without going through the tables.
\<close>

lemma extra_cases_ascii:
  "c < 128 \<Longrightarrow> extra_cases c = (if c = 105 then [305] else if c = 115 then [383] else [])"
  by (simp add: extra_cases_def ignorecase_fixes_def)

lemma lowered_ascii:
  "p < 128 \<Longrightarrow> lowered p l =
     (let q = (if 65 \<le> p \<and> p \<le> 90 then p + 32 else p)
      in l = q \<or> (q = 105 \<and> l = 305) \<or> (q = 115 \<and> l = 383))"
  by (auto simp add: lowered_def unicode_tolower_def extra_cases_ascii Let_def)

lemma list_ex_range: "list_ex P [a..<Suc b] = (\<exists>p. a \<le> p \<and> p \<le> b \<and> P p)"
  by (auto simp add: list_ex_iff)

lemma range_upper_ignorecase:
  "item_match_ignorecase (Rng 65 90) l = ((97 \<le> l \<and> l \<le> 122) \<or> l = 305 \<or> l = 383)"
proof -
  have "(\<exists>p. 65 \<le> p \<and> p \<le> 90 \<and> lowered p l) = ((97 \<le> l \<and> l \<le> 122) \<or> l = 305 \<or> l = 383)"
  proof
    assume "\<exists>p. 65 \<le> p \<and> p \<le> 90 \<and> lowered p l"
    then show "(97 \<le> l \<and> l \<le> 122) \<or> l = 305 \<or> l = 383"
      by (auto simp add: lowered_ascii)
  next
    assume "(97 \<le> l \<and> l \<le> 122) \<or> l = 305 \<or> l = 383"
    then consider "97 \<le> l \<and> l \<le> 122" | "l = 305" | "l = 383" by blast
    then show "\<exists>p. 65 \<le> p \<and> p \<le> 90 \<and> lowered p l"
    proof cases
      case 1
      then have "65 \<le> l - 32 \<and> l - 32 \<le> 90 \<and> lowered (l - 32) l"
        by (auto simp add: lowered_ascii)
      then show ?thesis by blast
    next
      case 2
      then have "65 \<le> (73::nat) \<and> (73::nat) \<le> 90 \<and> lowered 73 l"
        by (simp add: lowered_ascii)
      then show ?thesis by blast
    next
      case 3
      then have "65 \<le> (83::nat) \<and> (83::nat) \<le> 90 \<and> lowered 83 l"
        by (simp add: lowered_ascii)
      then show ?thesis by blast
    qed
  qed
  then show ?thesis unfolding item_match_ignorecase.simps list_ex_range .
qed

lemma range_lower_ignorecase:
  "item_match_ignorecase (Rng 97 122) l = ((97 \<le> l \<and> l \<le> 122) \<or> l = 305 \<or> l = 383)"
proof -
  have "(\<exists>p. 97 \<le> p \<and> p \<le> 122 \<and> lowered p l) = ((97 \<le> l \<and> l \<le> 122) \<or> l = 305 \<or> l = 383)"
  proof
    assume "\<exists>p. 97 \<le> p \<and> p \<le> 122 \<and> lowered p l"
    then show "(97 \<le> l \<and> l \<le> 122) \<or> l = 305 \<or> l = 383"
      by (auto simp add: lowered_ascii)
  next
    assume "(97 \<le> l \<and> l \<le> 122) \<or> l = 305 \<or> l = 383"
    then consider "97 \<le> l \<and> l \<le> 122" | "l = 305" | "l = 383" by blast
    then show "\<exists>p. 97 \<le> p \<and> p \<le> 122 \<and> lowered p l"
    proof cases
      case 1
      then have "97 \<le> l \<and> l \<le> 122 \<and> lowered l l"
        by (auto simp add: lowered_ascii)
      then show ?thesis by blast
    next
      case 2
      then have "97 \<le> (105::nat) \<and> (105::nat) \<le> 122 \<and> lowered 105 l"
        by (simp add: lowered_ascii)
      then show ?thesis by blast
    next
      case 3
      then have "97 \<le> (115::nat) \<and> (115::nat) \<le> 122 \<and> lowered 115 l"
        by (simp add: lowered_ascii)
      then show ?thesis by blast
    qed
  qed
  then show ?thesis unfolding item_match_ignorecase.simps list_ex_range .
qed

lemma item_cased_upper: "item_cased (Rng 65 90)"
proof -
  have "65 \<le> (65::nat) \<and> (65::nat) \<le> 90 \<and> iscased 65"
    by (simp add: iscased_def is_ascii_letter_def)
  then show ?thesis unfolding item_cased.simps list_ex_range by blast
qed

lemma name_chars_ignorecase:
  "ignorecase f \<Longrightarrow> atom_match f name_chars c =
     (let l = unicode_tolower c
      in (97 \<le> l \<and> l \<le> 122) \<or> l = 305 \<or> l = 383 \<or> is_space l \<or> l = 39 \<or> l = 45)"
  using item_cased_upper
  by (auto simp add: name_chars_def ch_def range_upper_ignorecase range_lower_ignorecase
      lowered_ascii Let_def simp del: item_match_ignorecase.simps(2) item_cased.simps(2))

lemma name_chars_plain:
  "\<not> ignorecase f \<Longrightarrow> atom_match f name_chars c =
     (is_ascii_letter c \<or> is_space c \<or> c = 39 \<or> c = 45)"
  by (auto simp add: name_chars_def ch_def is_ascii_letter_def)

lemma atom_in_plain:
  "\<not> ignorecase f \<Longrightarrow> atom_match f (In items) c = list_ex (\<lambda>i. item_match i c) items"
  by simp

lemma atom_literal_ignorecase:
  "ignorecase f \<Longrightarrow> atom_match f (In [Chr p]) c =
     (if iscased p then lowered p (unicode_tolower c) else c = p)"
  by simp

lemma atom_any: "atom_match f Any c = (dotall f \<or> c \<noteq> 10)"
  by simp

lemma atom_digit: "atom_match f digit c = is_decimal c"
  by (simp add: digit_def)

lemma atom_space: "atom_match f space c = is_space c"
  by (simp add: space_def)

lemma atom_colon_or_space: "atom_match f colon_or_space c = (c = 58 \<or> is_space c)"
  by (simp add: colon_or_space_def ch_def iscased_def is_ascii_letter_def)

lemma atom_dot_or_colon: "atom_match f dot_or_colon c = (c = 46 \<or> c = 58)"
  by (simp add: dot_or_colon_def ch_def iscased_def is_ascii_letter_def)

lemma atom_dash_or_slash: "atom_match f dash_or_slash c = (c = 45 \<or> c = 47)"
  by (simp add: dash_or_slash_def ch_def iscased_def is_ascii_letter_def)

lemmas atom_eval =
  atom_any name_chars_ignorecase name_chars_plain atom_in_plain atom_literal_ignorecase atom_digit
  atom_space atom_colon_or_space atom_dot_or_colon atom_dash_or_slash lowered_ascii

text \<open>
  The simplifier leaves a continuation alone until the matcher calls it.
\<close>

lemma match_re_cong:
  "prev = prev' \<Longrightarrow> s = s' \<Longrightarrow> match_re f r prev s c k = match_re f r prev' s' c k"
  by simp

lemma rep_greedy_cong:
  "prev = prev' \<Longrightarrow> s = s' \<Longrightarrow> rep_greedy P lo hi prev s k = rep_greedy P lo hi prev' s' k"
  by simp

lemma rep_lazy_cong:
  "prev = prev' \<Longrightarrow> s = s' \<Longrightarrow> rep_lazy P lo hi prev s k = rep_lazy P lo hi prev' s' k"
  by simp

lemmas engine_eval =
  re_search_def re_match_def match_here_def match_length_def re_sub_def re_split_def
  rep_star_def rep_plus_def rep_lazy_star_def rep_opt_def rep_times_def rep_between_def
  ch_def is_decimal_def is_ascii_digit_def is_ascii_letter_def is_space_def space_ranges_def
  word_before_def word_after_def is_word_def no_flags_def IGNORECASE_def address_flags_def
  iscased_def unicode_tolower_def atom_eval

lemmas string_eval =
  strip_def lstrip_def rstrip_def rstrip_char_def replace_def lower_def lower_char_def
  title_char_def group_def and_then_def startswith_def

section \<open>The scenario of the specification\<close>

lemma scenario_aadhaar_number:
  "parse_aadhaar_number scenario d = Inr (d\<lparr>aadhaar_number := u ''1234 5678 9012''\<rparr>)"
  by (simp add: parse_aadhaar_number_def scenario_def aadhaar_re_def three_groups_def
      engine_eval string_eval del: atom_match.simps
      cong: match_re_cong rep_greedy_cong rep_lazy_cong)

lemma scenario_vid: "parse_vid scenario d = Inr d"
  by (simp add: parse_vid_def scenario_def vid_re_def engine_eval string_eval
      del: atom_match.simps cong: match_re_cong rep_greedy_cong rep_lazy_cong)

lemma scenario_tamil_name: "parse_tamil_name scenario d = Inr d"
  by (simp add: parse_tamil_name_def scenario_def tamil_name_re_def engine_eval string_eval
      del: atom_match.simps cong: match_re_cong rep_greedy_cong rep_lazy_cong)

lemma scenario_lines:
  "text_lines scenario =
     [u ''1234 5678 9012'', u ''John Smith'', u ''S/O Robert Smith'', u ''DOB: 01-02-1990'',
      u ''Male'', u ''Address: 12 Main St'', u ''District: Chennai'', u ''State: Tamil Nadu'',
      u ''600001'', u ''9876543210'']"
  by (simp add: text_lines_def scenario_def engine_eval string_eval)

lemma scenario_name:
  "extract_name_from_text (text_lines scenario) = Inr (u ''John Smith'')"
  unfolding scenario_lines
  by (simp add: is_name_line_def name_line_re_def marker_re_def initial_re_def spaces_re_def
      unwanted_phrases_def engine_eval string_eval del: atom_match.simps
      cong: match_re_cong rep_greedy_cong rep_lazy_cong)

lemma scenario_guardian_name:
  "parse_guardian_name scenario d = Inr (d\<lparr>guardian_name := u ''Robert Smith\<newline>DOB''\<rparr>)"
  by (simp add: parse_guardian_name_def scenario_def guardian_re_def engine_eval string_eval
      del: atom_match.simps cong: match_re_cong rep_greedy_cong rep_lazy_cong)

lemma scenario_dob: "parse_dob scenario d = Inr (d\<lparr>dob := u ''01/02/1990''\<rparr>)"
  by (simp add: parse_dob_def scenario_def dob_re_def engine_eval string_eval
      del: atom_match.simps cong: match_re_cong rep_greedy_cong rep_lazy_cong)

lemma scenario_gender: "parse_gender scenario d = Inr (d\<lparr>gender := u ''Male''\<rparr>)"
  by (simp add: parse_gender_def scenario_def gender_re_def engine_eval string_eval
      del: atom_match.simps cong: match_re_cong rep_greedy_cong rep_lazy_cong)

lemma scenario_address: "parse_address scenario d = Inr (d\<lparr>address := u ''12 Main St''\<rparr>)"
  by (simp add: parse_address_def scenario_def address_re_def guardian_clause_re_def
      number_re_def three_groups_def post_office_re_def dist_state_re_def newlines_re_def
      spaces_re_def engine_eval string_eval del: atom_match.simps
      cong: match_re_cong rep_greedy_cong rep_lazy_cong)

lemma scenario_district: "parse_district scenario d = Inr (d\<lparr>district := u ''Chennai''\<rparr>)"
  by (simp add: parse_district_def scenario_def district_re_def engine_eval string_eval
      del: atom_match.simps cong: match_re_cong rep_greedy_cong rep_lazy_cong)

lemma scenario_state: "parse_state scenario d = Inr (d\<lparr>state := u ''Tamil Nadu''\<rparr>)"
  by (simp add: parse_state_def scenario_def state_re_def engine_eval string_eval
      del: atom_match.simps cong: match_re_cong rep_greedy_cong rep_lazy_cong)

lemma scenario_pincode: "parse_pincode scenario d = Inr (d\<lparr>pincode := u ''600001''\<rparr>)"
  by (simp add: parse_pincode_def scenario_def pincode_re_def engine_eval string_eval
      del: atom_match.simps cong: match_re_cong rep_greedy_cong rep_lazy_cong)

lemma scenario_phone: "parse_phone scenario d = Inr (d\<lparr>phone := u ''9876543210''\<rparr>)"
  by (simp add: parse_phone_def scenario_def phone_re_def engine_eval string_eval
      del: atom_match.simps cong: match_re_cong rep_greedy_cong rep_lazy_cong)

text \<open>
  C1: on the text of the scenario the parser returns the record below. The Aadhaar number
  (which the validator accepts), the name, the date of birth, the gender, the district, the
  state, the pincode and the phone number are those of the claim. The guardian name is
  not: the set \<^verbatim>\<open>[A-Za-z\s\'-]\<close> of the guardian pattern contains the newline, so the
  capture runs over the end of the line into the label of the next one and the field is
  \<open>Robert Smith\<close>, a newline and \<open>DOB\<close>.
\<close>

theorem parse_scenario:
  "parse_aadhaar_details scenario =
     Inr \<lparr>aadhaar_number = u ''1234 5678 9012'', name_tamil = [], name = u ''John Smith'',
          guardian_name = u ''Robert Smith\<newline>DOB'', dob = u ''01/02/1990'',
          gender = u ''Male'', address = u ''12 Main St'', district = u ''Chennai'',
          state = u ''Tamil Nadu'', pincode = u ''600001'', phone = u ''9876543210'',
          vid = []\<rparr>
   \<and> validate_aadhaar (u ''1234 5678 9012'')
   \<and> u ''Robert Smith\<newline>DOB'' \<noteq> u ''Robert Smith''"
proof -
  have "parse_name_fallback (text_lines scenario) d = Inr (d\<lparr>name := u ''John Smith''\<rparr>)"
    if "name d = []" for d
    using that
    by (simp add: parse_name_fallback_def scenario_name and_then_def del: u_simps)
  then have "parse_aadhaar_details scenario =
     Inr \<lparr>aadhaar_number = u ''1234 5678 9012'', name_tamil = [], name = u ''John Smith'',
          guardian_name = u ''Robert Smith\<newline>DOB'', dob = u ''01/02/1990'',
          gender = u ''Male'', address = u ''12 Main St'', district = u ''Chennai'',
          state = u ''Tamil Nadu'', pincode = u ''600001'', phone = u ''9876543210'',
          vid = []\<rparr>"
    by (simp add: parse_aadhaar_details_def Let_def and_then_def empty_data_def
        scenario_aadhaar_number scenario_vid scenario_tamil_name scenario_guardian_name
        scenario_dob scenario_gender scenario_address scenario_district scenario_state
        scenario_pincode scenario_phone del: u_simps)
  moreover have "validate_aadhaar (u ''1234 5678 9012'')"
    by (simp add: validate_aadhaar_def replace_def isdigit_def is_digit_def is_ascii_digit_def)
  ultimately show ?thesis by simp
qed

section \<open>The parser never raises\<close>

subsection \<open>A match sets the groups of the pattern\<close>

lemma rep_greedy_Some:
  "rep_greedy P lo hi prev s k = Some res \<Longrightarrow> \<exists>prev' s'. k prev' s' = Some res"
proof (induction s arbitrary: lo hi prev)
  case Nil
  then show ?case by (auto split: if_splits)
next
  case (Cons x xs)
  then show ?case by (fastforce split: if_splits option.splits)
qed

lemma rep_lazy_Some:
  "rep_lazy P lo hi prev s k = Some res \<Longrightarrow> \<exists>prev' s'. k prev' s' = Some res"
proof (induction s arbitrary: lo hi prev)
  case Nil
  then show ?case by (auto split: if_splits)
next
  case (Cons x xs)
  then show ?case by (fastforce split: if_splits option.splits)
qed

lemma match_re_groups:
  "match_re f r prev s c k = Some res \<Longrightarrow>
     \<exists>prev' s' c'. k prev' s' c' = Some res
        \<and> (\<forall>n. n \<in> sure_groups r \<or> c n \<noteq> None \<longrightarrow> c' n \<noteq> None)"
proof (induction r arbitrary: prev s c k res)
  case Eps
  then show ?case by auto
next
  case (Atom a)
  then show ?case by (auto split: list.splits if_splits)
next
  case (Rep g lo hi a)
  then show ?case
    using rep_greedy_Some rep_lazy_Some by (fastforce split: if_splits)
next
  case (Seq r1 r2)
  from Seq.prems have "match_re f r1 prev s c (\<lambda>prev' s' c'. match_re f r2 prev' s' c' k) = Some res"
    by simp
  from Seq.IH(1) [OF this] obtain p1 s1 c1 where
    a: "match_re f r2 p1 s1 c1 k = Some res"
    and b: "\<forall>n. n \<in> sure_groups r1 \<or> c n \<noteq> None \<longrightarrow> c1 n \<noteq> None"
    by blast
  from Seq.IH(2) [OF a] obtain p2 s2 c2 where
    "k p2 s2 c2 = Some res"
    and "\<forall>n. n \<in> sure_groups r2 \<or> c1 n \<noteq> None \<longrightarrow> c2 n \<noteq> None"
    by blast
  with b show ?case by (intro exI [of _ p2] exI [of _ s2] exI [of _ c2]) auto
next
  case (Alt r1 r2)
  show ?case
  proof (cases "match_re f r1 prev s c k")
    case None
    with Alt.prems have "match_re f r2 prev s c k = Some res" by simp
    from Alt.IH(2) [OF this] show ?thesis by fastforce
  next
    case (Some a)
    with Alt.prems have "match_re f r1 prev s c k = Some res" by simp
    from Alt.IH(1) [OF this] show ?thesis by fastforce
  qed
next
  case (Group n r)
  from Group.prems have
    "match_re f r prev s c
       (\<lambda>prev' s' c'. k prev' s' (c'(n := Some (take (length s - length s') s)))) = Some res"
    by simp
  from Group.IH [OF this] obtain p1 s1 c1 where
    a: "k p1 s1 (c1(n := Some (take (length s - length s1) s))) = Some res"
    and b: "\<forall>m. m \<in> sure_groups r \<or> c m \<noteq> None \<longrightarrow> c1 m \<noteq> None"
    by blast
  from b have "\<forall>m. m \<in> sure_groups (Group n r) \<or> c m \<noteq> None
      \<longrightarrow> (c1(n := Some (take (length s - length s1) s))) m \<noteq> None"
    by auto
  with a show ?case by blast
next
  case (Look r)
  from Look.prems obtain c1 s1 where
    a: "match_re f r prev s c (\<lambda>prev' s' c'. Some (c', s')) = Some (c1, s1)"
    and b: "k prev s c1 = Some res"
    by (auto split: option.splits)
  from Look.IH [OF a] have "\<forall>n. n \<in> sure_groups r \<or> c n \<noteq> None \<longrightarrow> c1 n \<noteq> None"
    by auto
  with b show ?case by (intro exI [of _ prev] exI [of _ s] exI [of _ c1]) auto
next
  case Bol
  then show ?case by (auto split: if_splits)
next
  case Eol
  then show ?case by (auto split: if_splits)
next
  case Wordb
  then show ?case by (auto split: if_splits)
qed

lemma match_here_groups:
  "match_here f r prev s = Some (c, s') \<Longrightarrow> n \<in> sure_groups r \<Longrightarrow> c n \<noteq> None"
  unfolding match_here_def
  by (drule match_re_groups) auto

lemma search_from_groups:
  "search_from f r prev s = Some c \<Longrightarrow> n \<in> sure_groups r \<Longrightarrow> c n \<noteq> None"
proof (induction s arbitrary: prev)
  case Nil
  then show ?case using match_here_groups by (fastforce)
next
  case (Cons x xs)
  then show ?case using match_here_groups by (fastforce split: option.splits)
qed

lemma group_Inr:
  "re_search f r s = Some c \<Longrightarrow> n \<in> sure_groups r \<Longrightarrow> \<exists>g. group c n = Inr g"
  using search_from_groups [of f r None s c n]
  by (auto simp add: re_search_def group_def split: option.splits)


lemma sure_groups_lit [simp]: "sure_groups (lit w) = {}"
  by (induction w rule: lit.induct) simp_all

lemma sure_groups_rep [simp]:
  "sure_groups (rep_star a) = {}" "sure_groups (rep_plus a) = {}"
  "sure_groups (rep_lazy_star a) = {}" "sure_groups (rep_opt a) = {}"
  "sure_groups (rep_times n a) = {}" "sure_groups (rep_between lo hi a) = {}"
  by (simp_all add: rep_star_def rep_plus_def rep_lazy_star_def rep_opt_def rep_times_def
      rep_between_def)

subsection \<open>\<open>re.split\<close> returns a non-empty list\<close>

lemma push_not_Nil [simp]: "push x ws \<noteq> []"
  by (cases ws) simp_all

lemma split_from_not_Nil: "split_from f r skip prev s \<noteq> []"
  by (induction s arbitrary: skip prev) (simp_all split: option.splits)

lemma first_re_split: "\<exists>h. first_item (re_split f r s) = Inr h"
  using split_from_not_Nil [of f r 0 None s]
  by (cases "split_from f r 0 None s") (simp_all add: re_split_def)

lemma extract_name_from_text_returns: "\<exists>n. extract_name_from_text lines = Inr n"
proof (induction lines)
  case Nil
  show ?case by simp
next
  case (Cons line lines)
  obtain h where "first_item (re_split IGNORECASE marker_re (strip line)) = Inr h"
    using first_re_split by blast
  with Cons show ?case by (simp add: Let_def and_then_def)
qed

subsection \<open>The steps\<close>

text \<open>
  Each step returns, and what it does to the record is an update of its own field that
  depends on the text alone.
\<close>

lemma parse_aadhaar_number_shape: "\<exists>upd. \<forall>d. parse_aadhaar_number t d = Inr (aadhaar_number_update upd d)"
proof (cases "re_search no_flags aadhaar_re t")
  case None
  then have "\<forall>d. parse_aadhaar_number t d = Inr (aadhaar_number_update (\<lambda>x. x) d)"
    by (simp add: parse_aadhaar_number_def)
  then show ?thesis by blast
next
  case (Some c)
  then obtain g where "group c 1 = Inr g"
    using group_Inr [of no_flags aadhaar_re t c 1] by (auto simp add: aadhaar_re_def)
  with Some have "\<forall>d. parse_aadhaar_number t d =
      Inr (aadhaar_number_update (\<lambda>_. g) d)"
    by (simp add: parse_aadhaar_number_def and_then_def del: u_simps)
  then show ?thesis by blast
qed

lemma parse_vid_shape: "\<exists>upd. \<forall>d. parse_vid t d = Inr (vid_update upd d)"
proof (cases "re_search no_flags vid_re t")
  case None
  then have "\<forall>d. parse_vid t d = Inr (vid_update (\<lambda>x. x) d)"
    by (simp add: parse_vid_def)
  then show ?thesis by blast
next
  case (Some c)
  then obtain g where "group c 1 = Inr g"
    using group_Inr [of no_flags vid_re t c 1] by (auto simp add: vid_re_def)
  with Some have "\<forall>d. parse_vid t d =
      Inr (vid_update (\<lambda>_. g) d)"
    by (simp add: parse_vid_def and_then_def del: u_simps)
  then show ?thesis by blast
qed

lemma parse_tamil_name_shape:
  "\<exists>upd1 upd2. \<forall>d. parse_tamil_name t d = Inr (name_update upd2 (name_tamil_update upd1 d))"
proof (cases "re_search no_flags tamil_name_re t")
  case None
  then have "\<forall>d. parse_tamil_name t d
      = Inr (name_update (\<lambda>x. x) (name_tamil_update (\<lambda>x. x) d))"
    by (simp add: parse_tamil_name_def)
  then show ?thesis by blast
next
  case (Some c)
  then obtain g1 g2 where g: "group c 1 = Inr g1" "group c 2 = Inr g2"
    using group_Inr [of no_flags tamil_name_re t c 1] group_Inr [of no_flags tamil_name_re t c 2]
    by (auto simp add: tamil_name_re_def)
  obtain h where "first_item (re_split IGNORECASE marker_re (replace 10 (u '' '') (strip g2))) = Inr h"
    using first_re_split by blast
  with Some g have "\<forall>d. parse_tamil_name t d =
      Inr (name_update
             (\<lambda>_. re_sub no_flags spaces_re (u '' '')
                    (strip (re_sub no_flags initial_re [] (strip h))))
             (name_tamil_update (\<lambda>_. strip g1) d))"
    by (simp add: parse_tamil_name_def and_then_def Let_def del: u_simps)
  then show ?thesis by blast
qed

lemma parse_name_fallback_shape:
  "\<exists>n. \<forall>d. parse_name_fallback ls d = Inr (name_update (\<lambda>x. if x = [] then n else x) d)"
proof -
  obtain n where "extract_name_from_text ls = Inr n"
    using extract_name_from_text_returns by blast
  then have "\<forall>d. parse_name_fallback ls d = Inr (name_update (\<lambda>x. if x = [] then n else x) d)"
    by (simp add: parse_name_fallback_def and_then_def)
  then show ?thesis by blast
qed

lemma parse_guardian_name_shape: "\<exists>upd. \<forall>d. parse_guardian_name t d = Inr (guardian_name_update upd d)"
proof (cases "re_search IGNORECASE guardian_re t")
  case None
  then have "\<forall>d. parse_guardian_name t d = Inr (guardian_name_update (\<lambda>x. x) d)"
    by (simp add: parse_guardian_name_def)
  then show ?thesis by blast
next
  case (Some c)
  then obtain g where "group c 2 = Inr g"
    using group_Inr [of IGNORECASE guardian_re t c 2] by (auto simp add: guardian_re_def)
  with Some have "\<forall>d. parse_guardian_name t d =
      Inr (guardian_name_update (\<lambda>_. strip g) d)"
    by (simp add: parse_guardian_name_def and_then_def del: u_simps)
  then show ?thesis by blast
qed

lemma parse_dob_shape: "\<exists>upd. \<forall>d. parse_dob t d = Inr (dob_update upd d)"
proof (cases "re_search IGNORECASE dob_re t")
  case None
  then have "\<forall>d. parse_dob t d = Inr (dob_update (\<lambda>x. x) d)"
    by (simp add: parse_dob_def)
  then show ?thesis by blast
next
  case (Some c)
  then obtain g where "group c 2 = Inr g"
    using group_Inr [of IGNORECASE dob_re t c 2] by (auto simp add: dob_re_def)
  with Some have "\<forall>d. parse_dob t d =
      Inr (dob_update (\<lambda>_. replace 45 (u ''/'') g) d)"
    by (simp add: parse_dob_def and_then_def del: u_simps)
  then show ?thesis by blast
qed

lemma parse_gender_shape: "\<exists>upd. \<forall>d. parse_gender t d = Inr (gender_update upd d)"
proof (cases "re_search IGNORECASE gender_re t")
  case None
  then have "\<forall>d. parse_gender t d = Inr (gender_update (\<lambda>x. x) d)"
    by (simp add: parse_gender_def)
  then show ?thesis by blast
next
  case (Some c)
  then obtain g where "group c 1 = Inr g"
    using group_Inr [of IGNORECASE gender_re t c 1] by (auto simp add: gender_re_def)
  with Some have "\<forall>d. parse_gender t d =
      Inr (gender_update (\<lambda>_. capitalize g) d)"
    by (simp add: parse_gender_def and_then_def del: u_simps)
  then show ?thesis by blast
qed

lemma parse_address_shape: "\<exists>upd. \<forall>d. parse_address t d = Inr (address_update upd d)"
proof (cases "re_search address_flags address_re t")
  case None
  then have "\<forall>d. parse_address t d = Inr (address_update (\<lambda>x. x) d)"
    by (simp add: parse_address_def)
  then show ?thesis by blast
next
  case (Some c)
  then obtain g where "group c 1 = Inr g"
    using group_Inr [of address_flags address_re t c 1] by (auto simp add: address_re_def)
  with Some have "\<forall>d. parse_address t d =
      Inr (address_update (\<lambda>_. strip (re_sub no_flags spaces_re (u '' '')
               (strip (re_sub no_flags newlines_re (u '' '')
                  (re_sub IGNORECASE dist_state_re []
                     (re_sub no_flags post_office_re []
                        (re_sub no_flags number_re []
                           (re_sub IGNORECASE guardian_clause_re [] (strip g))))))))) d)"
    by (simp add: parse_address_def and_then_def Let_def del: u_simps)
  then show ?thesis by blast
qed

lemma parse_district_shape: "\<exists>upd. \<forall>d. parse_district t d = Inr (district_update upd d)"
proof (cases "re_search IGNORECASE district_re t")
  case None
  then have "\<forall>d. parse_district t d = Inr (district_update (\<lambda>x. x) d)"
    by (simp add: parse_district_def)
  then show ?thesis by blast
next
  case (Some c)
  then obtain g where "group c 1 = Inr g"
    using group_Inr [of IGNORECASE district_re t c 1] by (auto simp add: district_re_def)
  with Some have "\<forall>d. parse_district t d =
      Inr (district_update (\<lambda>_. replace 44 [] (strip g)) d)"
    by (simp add: parse_district_def and_then_def del: u_simps)
  then show ?thesis by blast
qed

lemma parse_state_shape: "\<exists>upd. \<forall>d. parse_state t d = Inr (state_update upd d)"
proof (cases "re_search IGNORECASE state_re t")
  case None
  then have "\<forall>d. parse_state t d = Inr (state_update (\<lambda>x. x) d)"
    by (simp add: parse_state_def)
  then show ?thesis by blast
next
  case (Some c)
  then obtain g where "group c 1 = Inr g"
    using group_Inr [of IGNORECASE state_re t c 1] by (auto simp add: state_re_def)
  with Some have "\<forall>d. parse_state t d =
      Inr (state_update (\<lambda>_. rstrip_char 44 (strip g)) d)"
    by (simp add: parse_state_def and_then_def del: u_simps)
  then show ?thesis by blast
qed

lemma parse_pincode_shape: "\<exists>upd. \<forall>d. parse_pincode t d = Inr (pincode_update upd d)"
proof (cases "re_search no_flags pincode_re t")
  case None
  then have "\<forall>d. parse_pincode t d = Inr (pincode_update (\<lambda>x. x) d)"
    by (simp add: parse_pincode_def)
  then show ?thesis by blast
next
  case (Some c)
  then obtain g where "group c 1 = Inr g"
    using group_Inr [of no_flags pincode_re t c 1] by (auto simp add: pincode_re_def)
  with Some have "\<forall>d. parse_pincode t d =
      Inr (pincode_update (\<lambda>_. g) d)"
    by (simp add: parse_pincode_def and_then_def del: u_simps)
  then show ?thesis by blast
qed

lemma parse_phone_shape: "\<exists>upd. \<forall>d. parse_phone t d = Inr (phone_update upd d)"
proof (cases "re_search no_flags phone_re t")
  case None
  then have "\<forall>d. parse_phone t d = Inr (phone_update (\<lambda>x. x) d)"
    by (simp add: parse_phone_def)
  then show ?thesis by blast
next
  case (Some c)
  then obtain g where "group c 1 = Inr g"
    using group_Inr [of no_flags phone_re t c 1] by (auto simp add: phone_re_def)
  with Some have "\<forall>d. parse_phone t d =
      Inr (phone_update (\<lambda>_. g) d)"
    by (simp add: parse_phone_def and_then_def del: u_simps)
  then show ?thesis by blast
qed

text \<open>
  The whole function returns, and each field of its record is what the step of that field
  alone makes of the empty record.
\<close>

lemma parse_fields:
  "\<exists>d. parse_aadhaar_details t = Inr d
     \<and> parse_aadhaar_number t empty_data = Inr (empty_data\<lparr>aadhaar_number := aadhaar_number d\<rparr>)
     \<and> and_then (parse_tamil_name t empty_data) (parse_name_fallback (text_lines t))
         = Inr (empty_data\<lparr>name_tamil := name_tamil d, name := name d\<rparr>)
     \<and> parse_guardian_name t empty_data = Inr (empty_data\<lparr>guardian_name := guardian_name d\<rparr>)
     \<and> parse_dob t empty_data = Inr (empty_data\<lparr>dob := dob d\<rparr>)
     \<and> parse_gender t empty_data = Inr (empty_data\<lparr>gender := gender d\<rparr>)
     \<and> parse_address t empty_data = Inr (empty_data\<lparr>address := address d\<rparr>)
     \<and> parse_district t empty_data = Inr (empty_data\<lparr>district := district d\<rparr>)
     \<and> parse_state t empty_data = Inr (empty_data\<lparr>state := state d\<rparr>)
     \<and> parse_pincode t empty_data = Inr (empty_data\<lparr>pincode := pincode d\<rparr>)
     \<and> parse_phone t empty_data = Inr (empty_data\<lparr>phone := phone d\<rparr>)
     \<and> parse_vid t empty_data = Inr (empty_data\<lparr>vid := vid d\<rparr>)"
proof -
  obtain u1 where s1: "\<And>d. parse_aadhaar_number t d = Inr (aadhaar_number_update u1 d)"
    using parse_aadhaar_number_shape by blast
  obtain u2 where s2: "\<And>d. parse_vid t d = Inr (vid_update u2 d)"
    using parse_vid_shape by blast
  obtain u3 u4 where s3: "\<And>d. parse_tamil_name t d = Inr (name_update u4 (name_tamil_update u3 d))"
    using parse_tamil_name_shape by blast
  obtain n where s4: "\<And>d. parse_name_fallback (text_lines t) d
      = Inr (name_update (\<lambda>x. if x = [] then n else x) d)"
    using parse_name_fallback_shape by blast
  obtain u5 where s5: "\<And>d. parse_guardian_name t d = Inr (guardian_name_update u5 d)"
    using parse_guardian_name_shape by blast
  obtain u6 where s6: "\<And>d. parse_dob t d = Inr (dob_update u6 d)"
    using parse_dob_shape by blast
  obtain u7 where s7: "\<And>d. parse_gender t d = Inr (gender_update u7 d)"
    using parse_gender_shape by blast
  obtain u8 where s8: "\<And>d. parse_address t d = Inr (address_update u8 d)"
    using parse_address_shape by blast
  obtain u9 where s9: "\<And>d. parse_district t d = Inr (district_update u9 d)"
    using parse_district_shape by blast
  obtain u10 where s10: "\<And>d. parse_state t d = Inr (state_update u10 d)"
    using parse_state_shape by blast
  obtain u11 where s11: "\<And>d. parse_pincode t d = Inr (pincode_update u11 d)"
    using parse_pincode_shape by blast
  obtain u12 where s12: "\<And>d. parse_phone t d = Inr (phone_update u12 d)"
    using parse_phone_shape by blast
  note steps = s1 s2 s3 s4 s5 s6 s7 s8 s9 s10 s11 s12
  show ?thesis
    by (simp add: parse_aadhaar_details_def Let_def and_then_def steps empty_data_def)
qed

section \<open>The fields of the record\<close>

text \<open>
  For a record that the parser returns, each field is the empty string where its pattern
  does not match the text, and is made from the group of the first match where it does.
\<close>

lemma aadhaar_number_field:
  assumes "parse_aadhaar_details t = Inr d"
  shows "case re_search no_flags aadhaar_re t of
           None \<Rightarrow> aadhaar_number d = []
         | Some c \<Rightarrow> (\<exists>g. c 1 = Some g \<and> aadhaar_number d = g)"
proof -
  from parse_fields [of t] assms have
    own: "parse_aadhaar_number t empty_data = Inr (empty_data\<lparr>aadhaar_number := aadhaar_number d\<rparr>)"
    by auto
  show ?thesis
  proof (cases "re_search no_flags aadhaar_re t")
    case None
    with own have "empty_data\<lparr>aadhaar_number := aadhaar_number d\<rparr> = empty_data"
      by (simp add: parse_aadhaar_number_def)
    then have "aadhaar_number (empty_data\<lparr>aadhaar_number := aadhaar_number d\<rparr>) = aadhaar_number empty_data"
      by (rule arg_cong)
    with None show ?thesis by (simp add: empty_data_def)
  next
    case (Some c)
    then obtain g where g: "group c 1 = Inr g"
      using group_Inr [of no_flags aadhaar_re t c 1] by (auto simp add: aadhaar_re_def)
    then have c: "c 1 = Some g" by (auto simp add: group_def split: option.splits)
    define v where "v = g"
    from own Some g have "empty_data\<lparr>aadhaar_number := aadhaar_number d\<rparr> = empty_data\<lparr>aadhaar_number := v\<rparr>"
      by (simp add: parse_aadhaar_number_def and_then_def v_def del: u_simps)
    then have "aadhaar_number (empty_data\<lparr>aadhaar_number := aadhaar_number d\<rparr>)
        = aadhaar_number (empty_data\<lparr>aadhaar_number := v\<rparr>)"
      by (rule arg_cong)
    then have "aadhaar_number d = v" by simp
    with Some c show ?thesis by (simp add: v_def del: u_simps)
  qed
qed

lemma vid_field:
  assumes "parse_aadhaar_details t = Inr d"
  shows "case re_search no_flags vid_re t of
           None \<Rightarrow> vid d = []
         | Some c \<Rightarrow> (\<exists>g. c 1 = Some g \<and> vid d = g)"
proof -
  from parse_fields [of t] assms have
    own: "parse_vid t empty_data = Inr (empty_data\<lparr>vid := vid d\<rparr>)"
    by auto
  show ?thesis
  proof (cases "re_search no_flags vid_re t")
    case None
    with own have "empty_data\<lparr>vid := vid d\<rparr> = empty_data"
      by (simp add: parse_vid_def)
    then have "vid (empty_data\<lparr>vid := vid d\<rparr>) = vid empty_data"
      by (rule arg_cong)
    with None show ?thesis by (simp add: empty_data_def)
  next
    case (Some c)
    then obtain g where g: "group c 1 = Inr g"
      using group_Inr [of no_flags vid_re t c 1] by (auto simp add: vid_re_def)
    then have c: "c 1 = Some g" by (auto simp add: group_def split: option.splits)
    define v where "v = g"
    from own Some g have "empty_data\<lparr>vid := vid d\<rparr> = empty_data\<lparr>vid := v\<rparr>"
      by (simp add: parse_vid_def and_then_def v_def del: u_simps)
    then have "vid (empty_data\<lparr>vid := vid d\<rparr>)
        = vid (empty_data\<lparr>vid := v\<rparr>)"
      by (rule arg_cong)
    then have "vid d = v" by simp
    with Some c show ?thesis by (simp add: v_def del: u_simps)
  qed
qed

lemma guardian_name_field:
  assumes "parse_aadhaar_details t = Inr d"
  shows "case re_search IGNORECASE guardian_re t of
           None \<Rightarrow> guardian_name d = []
         | Some c \<Rightarrow> (\<exists>g. c 2 = Some g \<and> guardian_name d = strip g)"
proof -
  from parse_fields [of t] assms have
    own: "parse_guardian_name t empty_data = Inr (empty_data\<lparr>guardian_name := guardian_name d\<rparr>)"
    by auto
  show ?thesis
  proof (cases "re_search IGNORECASE guardian_re t")
    case None
    with own have "empty_data\<lparr>guardian_name := guardian_name d\<rparr> = empty_data"
      by (simp add: parse_guardian_name_def)
    then have "guardian_name (empty_data\<lparr>guardian_name := guardian_name d\<rparr>) = guardian_name empty_data"
      by (rule arg_cong)
    with None show ?thesis by (simp add: empty_data_def)
  next
    case (Some c)
    then obtain g where g: "group c 2 = Inr g"
      using group_Inr [of IGNORECASE guardian_re t c 2] by (auto simp add: guardian_re_def)
    then have c: "c 2 = Some g" by (auto simp add: group_def split: option.splits)
    define v where "v = strip g"
    from own Some g have "empty_data\<lparr>guardian_name := guardian_name d\<rparr> = empty_data\<lparr>guardian_name := v\<rparr>"
      by (simp add: parse_guardian_name_def and_then_def v_def del: u_simps)
    then have "guardian_name (empty_data\<lparr>guardian_name := guardian_name d\<rparr>)
        = guardian_name (empty_data\<lparr>guardian_name := v\<rparr>)"
      by (rule arg_cong)
    then have "guardian_name d = v" by simp
    with Some c show ?thesis by (simp add: v_def del: u_simps)
  qed
qed

lemma dob_field:
  assumes "parse_aadhaar_details t = Inr d"
  shows "case re_search IGNORECASE dob_re t of
           None \<Rightarrow> dob d = []
         | Some c \<Rightarrow> (\<exists>g. c 2 = Some g \<and> dob d = replace 45 (u ''/'') g)"
proof -
  from parse_fields [of t] assms have
    own: "parse_dob t empty_data = Inr (empty_data\<lparr>dob := dob d\<rparr>)"
    by auto
  show ?thesis
  proof (cases "re_search IGNORECASE dob_re t")
    case None
    with own have "empty_data\<lparr>dob := dob d\<rparr> = empty_data"
      by (simp add: parse_dob_def)
    then have "dob (empty_data\<lparr>dob := dob d\<rparr>) = dob empty_data"
      by (rule arg_cong)
    with None show ?thesis by (simp add: empty_data_def)
  next
    case (Some c)
    then obtain g where g: "group c 2 = Inr g"
      using group_Inr [of IGNORECASE dob_re t c 2] by (auto simp add: dob_re_def)
    then have c: "c 2 = Some g" by (auto simp add: group_def split: option.splits)
    define v where "v = replace 45 (u ''/'') g"
    from own Some g have "empty_data\<lparr>dob := dob d\<rparr> = empty_data\<lparr>dob := v\<rparr>"
      by (simp add: parse_dob_def and_then_def v_def del: u_simps)
    then have "dob (empty_data\<lparr>dob := dob d\<rparr>)
        = dob (empty_data\<lparr>dob := v\<rparr>)"
      by (rule arg_cong)
    then have "dob d = v" by simp
    with Some c show ?thesis by (simp add: v_def del: u_simps)
  qed
qed

lemma gender_field:
  assumes "parse_aadhaar_details t = Inr d"
  shows "case re_search IGNORECASE gender_re t of
           None \<Rightarrow> gender d = []
         | Some c \<Rightarrow> (\<exists>g. c 1 = Some g \<and> gender d = capitalize g)"
proof -
  from parse_fields [of t] assms have
    own: "parse_gender t empty_data = Inr (empty_data\<lparr>gender := gender d\<rparr>)"
    by auto
  show ?thesis
  proof (cases "re_search IGNORECASE gender_re t")
    case None
    with own have "empty_data\<lparr>gender := gender d\<rparr> = empty_data"
      by (simp add: parse_gender_def)
    then have "gender (empty_data\<lparr>gender := gender d\<rparr>) = gender empty_data"
      by (rule arg_cong)
    with None show ?thesis by (simp add: empty_data_def)
  next
    case (Some c)
    then obtain g where g: "group c 1 = Inr g"
      using group_Inr [of IGNORECASE gender_re t c 1] by (auto simp add: gender_re_def)
    then have c: "c 1 = Some g" by (auto simp add: group_def split: option.splits)
    define v where "v = capitalize g"
    from own Some g have "empty_data\<lparr>gender := gender d\<rparr> = empty_data\<lparr>gender := v\<rparr>"
      by (simp add: parse_gender_def and_then_def v_def del: u_simps)
    then have "gender (empty_data\<lparr>gender := gender d\<rparr>)
        = gender (empty_data\<lparr>gender := v\<rparr>)"
      by (rule arg_cong)
    then have "gender d = v" by simp
    with Some c show ?thesis by (simp add: v_def del: u_simps)
  qed
qed

lemma address_field:
  assumes "parse_aadhaar_details t = Inr d"
  shows "case re_search address_flags address_re t of
           None \<Rightarrow> address d = []
         | Some c \<Rightarrow> (\<exists>g. c 1 = Some g \<and> address d = strip (re_sub no_flags spaces_re (u '' '')
               (strip (re_sub no_flags newlines_re (u '' '')
                  (re_sub IGNORECASE dist_state_re []
                     (re_sub no_flags post_office_re []
                        (re_sub no_flags number_re []
                           (re_sub IGNORECASE guardian_clause_re [] (strip g)))))))))"
proof -
  from parse_fields [of t] assms have
    own: "parse_address t empty_data = Inr (empty_data\<lparr>address := address d\<rparr>)"
    by auto
  show ?thesis
  proof (cases "re_search address_flags address_re t")
    case None
    with own have "empty_data\<lparr>address := address d\<rparr> = empty_data"
      by (simp add: parse_address_def)
    then have "address (empty_data\<lparr>address := address d\<rparr>) = address empty_data"
      by (rule arg_cong)
    with None show ?thesis by (simp add: empty_data_def)
  next
    case (Some c)
    then obtain g where g: "group c 1 = Inr g"
      using group_Inr [of address_flags address_re t c 1] by (auto simp add: address_re_def)
    then have c: "c 1 = Some g" by (auto simp add: group_def split: option.splits)
    define v where "v = strip (re_sub no_flags spaces_re (u '' '')
               (strip (re_sub no_flags newlines_re (u '' '')
                  (re_sub IGNORECASE dist_state_re []
                     (re_sub no_flags post_office_re []
                        (re_sub no_flags number_re []
                           (re_sub IGNORECASE guardian_clause_re [] (strip g))))))))"
    from own Some g have "empty_data\<lparr>address := address d\<rparr> = empty_data\<lparr>address := v\<rparr>"
      by (simp add: parse_address_def and_then_def v_def Let_def del: u_simps)
    then have "address (empty_data\<lparr>address := address d\<rparr>)
        = address (empty_data\<lparr>address := v\<rparr>)"
      by (rule arg_cong)
    then have "address d = v" by simp
    with Some c show ?thesis by (simp add: v_def del: u_simps)
  qed
qed

lemma district_field:
  assumes "parse_aadhaar_details t = Inr d"
  shows "case re_search IGNORECASE district_re t of
           None \<Rightarrow> district d = []
         | Some c \<Rightarrow> (\<exists>g. c 1 = Some g \<and> district d = replace 44 [] (strip g))"
proof -
  from parse_fields [of t] assms have
    own: "parse_district t empty_data = Inr (empty_data\<lparr>district := district d\<rparr>)"
    by auto
  show ?thesis
  proof (cases "re_search IGNORECASE district_re t")
    case None
    with own have "empty_data\<lparr>district := district d\<rparr> = empty_data"
      by (simp add: parse_district_def)
    then have "district (empty_data\<lparr>district := district d\<rparr>) = district empty_data"
      by (rule arg_cong)
    with None show ?thesis by (simp add: empty_data_def)
  next
    case (Some c)
    then obtain g where g: "group c 1 = Inr g"
      using group_Inr [of IGNORECASE district_re t c 1] by (auto simp add: district_re_def)
    then have c: "c 1 = Some g" by (auto simp add: group_def split: option.splits)
    define v where "v = replace 44 [] (strip g)"
    from own Some g have "empty_data\<lparr>district := district d\<rparr> = empty_data\<lparr>district := v\<rparr>"
      by (simp add: parse_district_def and_then_def v_def del: u_simps)
    then have "district (empty_data\<lparr>district := district d\<rparr>)
        = district (empty_data\<lparr>district := v\<rparr>)"
      by (rule arg_cong)
    then have "district d = v" by simp
    with Some c show ?thesis by (simp add: v_def del: u_simps)
  qed
qed

lemma state_field:
  assumes "parse_aadhaar_details t = Inr d"
  shows "case re_search IGNORECASE state_re t of
           None \<Rightarrow> state d = []
         | Some c \<Rightarrow> (\<exists>g. c 1 = Some g \<and> state d = rstrip_char 44 (strip g))"
proof -
  from parse_fields [of t] assms have
    own: "parse_state t empty_data = Inr (empty_data\<lparr>state := state d\<rparr>)"
    by auto
  show ?thesis
  proof (cases "re_search IGNORECASE state_re t")
    case None
    with own have "empty_data\<lparr>state := state d\<rparr> = empty_data"
      by (simp add: parse_state_def)
    then have "state (empty_data\<lparr>state := state d\<rparr>) = state empty_data"
      by (rule arg_cong)
    with None show ?thesis by (simp add: empty_data_def)
  next
    case (Some c)
    then obtain g where g: "group c 1 = Inr g"
      using group_Inr [of IGNORECASE state_re t c 1] by (auto simp add: state_re_def)
    then have c: "c 1 = Some g" by (auto simp add: group_def split: option.splits)
    define v where "v = rstrip_char 44 (strip g)"
    from own Some g have "empty_data\<lparr>state := state d\<rparr> = empty_data\<lparr>state := v\<rparr>"
      by (simp add: parse_state_def and_then_def v_def del: u_simps)
    then have "state (empty_data\<lparr>state := state d\<rparr>)
        = state (empty_data\<lparr>state := v\<rparr>)"
      by (rule arg_cong)
    then have "state d = v" by simp
    with Some c show ?thesis by (simp add: v_def del: u_simps)
  qed
qed

lemma pincode_field:
  assumes "parse_aadhaar_details t = Inr d"
  shows "case re_search no_flags pincode_re t of
           None \<Rightarrow> pincode d = []
         | Some c \<Rightarrow> (\<exists>g. c 1 = Some g \<and> pincode d = g)"
proof -
  from parse_fields [of t] assms have
    own: "parse_pincode t empty_data = Inr (empty_data\<lparr>pincode := pincode d\<rparr>)"
    by auto
  show ?thesis
  proof (cases "re_search no_flags pincode_re t")
    case None
    with own have "empty_data\<lparr>pincode := pincode d\<rparr> = empty_data"
      by (simp add: parse_pincode_def)
    then have "pincode (empty_data\<lparr>pincode := pincode d\<rparr>) = pincode empty_data"
      by (rule arg_cong)
    with None show ?thesis by (simp add: empty_data_def)
  next
    case (Some c)
    then obtain g where g: "group c 1 = Inr g"
      using group_Inr [of no_flags pincode_re t c 1] by (auto simp add: pincode_re_def)
    then have c: "c 1 = Some g" by (auto simp add: group_def split: option.splits)
    define v where "v = g"
    from own Some g have "empty_data\<lparr>pincode := pincode d\<rparr> = empty_data\<lparr>pincode := v\<rparr>"
      by (simp add: parse_pincode_def and_then_def v_def del: u_simps)
    then have "pincode (empty_data\<lparr>pincode := pincode d\<rparr>)
        = pincode (empty_data\<lparr>pincode := v\<rparr>)"
      by (rule arg_cong)
    then have "pincode d = v" by simp
    with Some c show ?thesis by (simp add: v_def del: u_simps)
  qed
qed

lemma phone_field:
  assumes "parse_aadhaar_details t = Inr d"
  shows "case re_search no_flags phone_re t of
           None \<Rightarrow> phone d = []
         | Some c \<Rightarrow> (\<exists>g. c 1 = Some g \<and> phone d = g)"
proof -
  from parse_fields [of t] assms have
    own: "parse_phone t empty_data = Inr (empty_data\<lparr>phone := phone d\<rparr>)"
    by auto
  show ?thesis
  proof (cases "re_search no_flags phone_re t")
    case None
    with own have "empty_data\<lparr>phone := phone d\<rparr> = empty_data"
      by (simp add: parse_phone_def)
    then have "phone (empty_data\<lparr>phone := phone d\<rparr>) = phone empty_data"
      by (rule arg_cong)
    with None show ?thesis by (simp add: empty_data_def)
  next
    case (Some c)
    then obtain g where g: "group c 1 = Inr g"
      using group_Inr [of no_flags phone_re t c 1] by (auto simp add: phone_re_def)
    then have c: "c 1 = Some g" by (auto simp add: group_def split: option.splits)
    define v where "v = g"
    from own Some g have "empty_data\<lparr>phone := phone d\<rparr> = empty_data\<lparr>phone := v\<rparr>"
      by (simp add: parse_phone_def and_then_def v_def del: u_simps)
    then have "phone (empty_data\<lparr>phone := phone d\<rparr>)
        = phone (empty_data\<lparr>phone := v\<rparr>)"
      by (rule arg_cong)
    then have "phone d = v" by simp
    with Some c show ?thesis by (simp add: v_def del: u_simps)
  qed
qed

lemma extract_name_no_line:
  "list_ex (\<lambda>line. is_name_line (strip line)) lines \<or> extract_name_from_text lines = Inr []"
  by (induction lines) (simp_all add: Let_def)

lemma name_fields:
  assumes "parse_aadhaar_details t = Inr d"
  shows "(case re_search no_flags tamil_name_re t of
           None \<Rightarrow> name_tamil d = [] \<and> extract_name_from_text (text_lines t) = Inr (name d)
         | Some c \<Rightarrow>
             (\<exists>g1 g2 h. c 1 = Some g1 \<and> c 2 = Some g2 \<and> name_tamil d = strip g1
                \<and> first_item (re_split IGNORECASE marker_re (replace 10 (u '' '') (strip g2))) = Inr h
                \<and> (if re_sub no_flags spaces_re (u '' '') (strip (re_sub no_flags initial_re [] (strip h))) = []
                    then extract_name_from_text (text_lines t) = Inr (name d)
                    else name d = re_sub no_flags spaces_re (u '' '')
                                    (strip (re_sub no_flags initial_re [] (strip h))))))"
proof -
  let ?ls = "text_lines t"
  from parse_fields [of t] assms have
    own: "and_then (parse_tamil_name t empty_data) (parse_name_fallback ?ls)
            = Inr (empty_data\<lparr>name_tamil := name_tamil d, name := name d\<rparr>)"
    by auto
  obtain n where n: "extract_name_from_text ?ls = Inr n"
    using extract_name_from_text_returns by blast
  show ?thesis
  proof (cases "re_search no_flags tamil_name_re t")
    case None
    with own n have e: "empty_data\<lparr>name := n\<rparr> = empty_data\<lparr>name_tamil := name_tamil d, name := name d\<rparr>"
      by (simp add: parse_tamil_name_def parse_name_fallback_def and_then_def empty_data_def)
    from e have "name (empty_data\<lparr>name := n\<rparr>)
        = name (empty_data\<lparr>name_tamil := name_tamil d, name := name d\<rparr>)"
      by (rule arg_cong)
    moreover from e have "name_tamil (empty_data\<lparr>name := n\<rparr>)
        = name_tamil (empty_data\<lparr>name_tamil := name_tamil d, name := name d\<rparr>)"
      by (rule arg_cong)
    ultimately show ?thesis using None n by (simp add: empty_data_def)
  next
    case (Some c)
    then obtain g1 g2 where g: "group c 1 = Inr g1" "group c 2 = Inr g2"
      using group_Inr [of no_flags tamil_name_re t c 1] group_Inr [of no_flags tamil_name_re t c 2]
      by (auto simp add: tamil_name_re_def)
    then have c: "c 1 = Some g1" "c 2 = Some g2"
      by (auto simp add: group_def split: option.splits)
    obtain h where h: "first_item (re_split IGNORECASE marker_re (replace 10 (u '' '') (strip g2))) = Inr h"
      using first_re_split by blast
    define v where "v = re_sub no_flags spaces_re (u '' '') (strip (re_sub no_flags initial_re [] (strip h)))"
    from Some g h have step: "parse_tamil_name t empty_data
        = Inr (empty_data\<lparr>name_tamil := strip g1, name := v\<rparr>)"
      by (simp add: parse_tamil_name_def and_then_def Let_def v_def del: u_simps)
    have fields: "name_tamil d = strip g1
        \<and> (if v = [] then extract_name_from_text ?ls = Inr (name d) else name d = v)"
    proof (cases "v = []")
      case True
      with own step n have e: "empty_data\<lparr>name_tamil := strip g1, name := n\<rparr>
          = empty_data\<lparr>name_tamil := name_tamil d, name := name d\<rparr>"
        by (simp add: parse_name_fallback_def and_then_def)
      from e have "name (empty_data\<lparr>name_tamil := strip g1, name := n\<rparr>)
          = name (empty_data\<lparr>name_tamil := name_tamil d, name := name d\<rparr>)"
        by (rule arg_cong)
      moreover from e have "name_tamil (empty_data\<lparr>name_tamil := strip g1, name := n\<rparr>)
          = name_tamil (empty_data\<lparr>name_tamil := name_tamil d, name := name d\<rparr>)"
        by (rule arg_cong)
      ultimately show ?thesis using True n by simp
    next
      case False
      with own step have e: "empty_data\<lparr>name_tamil := strip g1, name := v\<rparr>
          = empty_data\<lparr>name_tamil := name_tamil d, name := name d\<rparr>"
        by (simp add: parse_name_fallback_def and_then_def)
      from e have "name (empty_data\<lparr>name_tamil := strip g1, name := v\<rparr>)
          = name (empty_data\<lparr>name_tamil := name_tamil d, name := name d\<rparr>)"
        by (rule arg_cong)
      moreover from e have "name_tamil (empty_data\<lparr>name_tamil := strip g1, name := v\<rparr>)
          = name_tamil (empty_data\<lparr>name_tamil := name_tamil d, name := name d\<rparr>)"
        by (rule arg_cong)
      ultimately show ?thesis using False by simp
    qed
    with Some c h show ?thesis unfolding v_def by (simp del: u_simps)
  qed
qed

text \<open>
  C5: \<open>parse_aadhaar_details\<close> returns a record on every text and never raises. Each
  field of the record is what the step of that field alone makes of the empty record: it
  does not depend on whether another field was found. (The name is set by two steps, the
  Tamil-name pattern and the scan of the lines.) Each field is the empty string where its
  pattern does not match, and is made from the group of the first match where it does; the
  name is the empty string where neither the Tamil-name pattern matches nor a line
  qualifies as a name.
\<close>

theorem parse_aadhaar_details_total:
  "\<exists>d. parse_aadhaar_details t = Inr d
     \<and> parse_aadhaar_number t empty_data = Inr (empty_data\<lparr>aadhaar_number := aadhaar_number d\<rparr>)
     \<and> and_then (parse_tamil_name t empty_data) (parse_name_fallback (text_lines t))
         = Inr (empty_data\<lparr>name_tamil := name_tamil d, name := name d\<rparr>)
     \<and> parse_guardian_name t empty_data = Inr (empty_data\<lparr>guardian_name := guardian_name d\<rparr>)
     \<and> parse_dob t empty_data = Inr (empty_data\<lparr>dob := dob d\<rparr>)
     \<and> parse_gender t empty_data = Inr (empty_data\<lparr>gender := gender d\<rparr>)
     \<and> parse_address t empty_data = Inr (empty_data\<lparr>address := address d\<rparr>)
     \<and> parse_district t empty_data = Inr (empty_data\<lparr>district := district d\<rparr>)
     \<and> parse_state t empty_data = Inr (empty_data\<lparr>state := state d\<rparr>)
     \<and> parse_pincode t empty_data = Inr (empty_data\<lparr>pincode := pincode d\<rparr>)
     \<and> parse_phone t empty_data = Inr (empty_data\<lparr>phone := phone d\<rparr>)
     \<and> parse_vid t empty_data = Inr (empty_data\<lparr>vid := vid d\<rparr>)
     \<and> (case re_search no_flags aadhaar_re t of
           None \<Rightarrow> aadhaar_number d = []
         | Some c \<Rightarrow> (\<exists>g. c 1 = Some g \<and> aadhaar_number d = g))
     \<and> (case re_search no_flags tamil_name_re t of
           None \<Rightarrow> name_tamil d = [] \<and> extract_name_from_text (text_lines t) = Inr (name d)
         | Some c \<Rightarrow>
             (\<exists>g1 g2 h. c 1 = Some g1 \<and> c 2 = Some g2 \<and> name_tamil d = strip g1
                \<and> first_item (re_split IGNORECASE marker_re (replace 10 (u '' '') (strip g2))) = Inr h
                \<and> (if re_sub no_flags spaces_re (u '' '') (strip (re_sub no_flags initial_re [] (strip h))) = []
                    then extract_name_from_text (text_lines t) = Inr (name d)
                    else name d = re_sub no_flags spaces_re (u '' '')
                                    (strip (re_sub no_flags initial_re [] (strip h))))))
     \<and> (list_ex (\<lambda>line. is_name_line (strip line)) (text_lines t)
          \<or> extract_name_from_text (text_lines t) = Inr [])
     \<and> (case re_search IGNORECASE guardian_re t of
           None \<Rightarrow> guardian_name d = []
         | Some c \<Rightarrow> (\<exists>g. c 2 = Some g \<and> guardian_name d = strip g))
     \<and> (case re_search IGNORECASE dob_re t of
           None \<Rightarrow> dob d = []
         | Some c \<Rightarrow> (\<exists>g. c 2 = Some g \<and> dob d = replace 45 (u ''/'') g))
     \<and> (case re_search IGNORECASE gender_re t of
           None \<Rightarrow> gender d = []
         | Some c \<Rightarrow> (\<exists>g. c 1 = Some g \<and> gender d = capitalize g))
     \<and> (case re_search address_flags address_re t of
           None \<Rightarrow> address d = []
         | Some c \<Rightarrow> (\<exists>g. c 1 = Some g \<and> address d = strip (re_sub no_flags spaces_re (u '' '')
               (strip (re_sub no_flags newlines_re (u '' '')
                  (re_sub IGNORECASE dist_state_re []
                     (re_sub no_flags post_office_re []
                        (re_sub no_flags number_re []
                           (re_sub IGNORECASE guardian_clause_re [] (strip g))))))))))
     \<and> (case re_search IGNORECASE district_re t of
           None \<Rightarrow> district d = []
         | Some c \<Rightarrow> (\<exists>g. c 1 = Some g \<and> district d = replace 44 [] (strip g)))
     \<and> (case re_search IGNORECASE state_re t of
           None \<Rightarrow> state d = []
         | Some c \<Rightarrow> (\<exists>g. c 1 = Some g \<and> state d = rstrip_char 44 (strip g)))
     \<and> (case re_search no_flags pincode_re t of
           None \<Rightarrow> pincode d = []
         | Some c \<Rightarrow> (\<exists>g. c 1 = Some g \<and> pincode d = g))
     \<and> (case re_search no_flags phone_re t of
           None \<Rightarrow> phone d = []
         | Some c \<Rightarrow> (\<exists>g. c 1 = Some g \<and> phone d = g))
     \<and> (case re_search no_flags vid_re t of
           None \<Rightarrow> vid d = []
         | Some c \<Rightarrow> (\<exists>g. c 1 = Some g \<and> vid d = g))"
proof -
  from parse_fields [of t] obtain d where d: "parse_aadhaar_details t = Inr d"
    by blast
  from parse_fields [of t] d have independent:
    "parse_aadhaar_details t = Inr d
     \<and> parse_aadhaar_number t empty_data = Inr (empty_data\<lparr>aadhaar_number := aadhaar_number d\<rparr>)
     \<and> and_then (parse_tamil_name t empty_data) (parse_name_fallback (text_lines t))
         = Inr (empty_data\<lparr>name_tamil := name_tamil d, name := name d\<rparr>)
     \<and> parse_guardian_name t empty_data = Inr (empty_data\<lparr>guardian_name := guardian_name d\<rparr>)
     \<and> parse_dob t empty_data = Inr (empty_data\<lparr>dob := dob d\<rparr>)
     \<and> parse_gender t empty_data = Inr (empty_data\<lparr>gender := gender d\<rparr>)
     \<and> parse_address t empty_data = Inr (empty_data\<lparr>address := address d\<rparr>)
     \<and> parse_district t empty_data = Inr (empty_data\<lparr>district := district d\<rparr>)
     \<and> parse_state t empty_data = Inr (empty_data\<lparr>state := state d\<rparr>)
     \<and> parse_pincode t empty_data = Inr (empty_data\<lparr>pincode := pincode d\<rparr>)
     \<and> parse_phone t empty_data = Inr (empty_data\<lparr>phone := phone d\<rparr>)
     \<and> parse_vid t empty_data = Inr (empty_data\<lparr>vid := vid d\<rparr>)"
    by auto
  note fields =
    aadhaar_number_field [OF d]
    name_fields [OF d]
    extract_name_no_line [of "text_lines t"]
    guardian_name_field [OF d]
    dob_field [OF d]
    gender_field [OF d]
    address_field [OF d]
    district_field [OF d]
    state_field [OF d]
    pincode_field [OF d]
    phone_field [OF d]
    vid_field [OF d]
  from independent fields show ?thesis
    by (intro exI [of _ d] conjI) blast+
qed

section \<open>What a case-insensitive match can capture\<close>

subsection \<open>Characters that lower-case to a given letter\<close>

lemma lookup_lower_cases:
  "lookup_lower x tbl = y \<Longrightarrow>
     y = x \<or> (\<exists>lo hi target step. (lo, hi, target, step) \<in> set tbl \<and> lo \<le> x \<and> x \<le> hi
                  \<and> y = target + (x - lo))"
proof (induction tbl)
  case Nil
  then show ?case by simp
next
  case (Cons e tbl)
  obtain lo hi target step where e: "e = (lo, hi, target, step)"
    by (cases e) auto
  show ?case
  proof (cases "lo \<le> x \<and> x \<le> hi \<and> (x - lo) mod step = 0")
    case True
    with Cons.prems e have "(lo, hi, target, step) \<in> set (e # tbl) \<and> lo \<le> x \<and> x \<le> hi
        \<and> y = target + (x - lo)"
      by auto
    then show ?thesis by blast
  next
    case False
    with Cons.prems e have "lookup_lower x tbl = y" by auto
    from Cons.IH [OF this] show ?thesis by auto
  qed
qed

lemma lower_table_images:
  "list_all (\<lambda>(lo, hi, target, step). (128 \<le> target \<and> (383 < target \<or> target + (hi - lo) < 383))
       \<or> (lo = 304 \<and> hi = 304 \<and> target = 105) \<or> (lo = 8490 \<and> hi = 8490 \<and> target = 107))
     lower_table"
  by (simp add: lower_table_def)

lemma tolower_preimage:
  assumes "unicode_tolower x = y" and "y < 128 \<or> y = 383"
  shows "x = y \<or> (65 \<le> x \<and> x \<le> 90 \<and> y = x + 32) \<or> (x = 304 \<and> y = 105)
           \<or> (x = 8490 \<and> y = 107)"
proof (cases "x < 128")
  case True
  with assms show ?thesis by (auto simp add: unicode_tolower_def split: if_splits)
next
  case False
  with assms have y: "lookup_lower x lower_table = y" by (simp add: unicode_tolower_def)
  from lookup_lower_cases [OF y] show ?thesis
  proof
    assume "y = x"
    then show ?thesis by simp
  next
    assume "\<exists>lo hi target step. (lo, hi, target, step) \<in> set lower_table \<and> lo \<le> x \<and> x \<le> hi
                  \<and> y = target + (x - lo)"
    then obtain lo hi target step where
      e: "(lo, hi, target, step) \<in> set lower_table" and
      r: "lo \<le> x" "x \<le> hi" "y = target + (x - lo)"
      by blast
    from lower_table_images e have
      "(128 \<le> target \<and> (383 < target \<or> target + (hi - lo) < 383))
       \<or> (lo = 304 \<and> hi = 304 \<and> target = 105) \<or> (lo = 8490 \<and> hi = 8490 \<and> target = 107)"
      by (auto simp add: list_all_iff)
    with r assms(2) show ?thesis by auto
  qed
qed

subsection \<open>Matches of a literal word\<close>

lemma lower_append: "lower (a @ b) = lower a @ lower b"
  by (simp add: lower_def)

lemma plain_letter_match:
  assumes "atom_match IGNORECASE (In [Chr q]) x" and "is_ascii_letter q"
    and "q \<notin> {73, 75, 83, 105, 107, 115}"
  shows "lower_char x = [unicode_tolower q] \<and> title_char x = [unicode_tolower q - 32]"
proof -
  define l where "l = unicode_tolower q"
  from assms(2) have q: "q < 128" by (auto simp add: is_ascii_letter_def)
  from assms(2,3) have l: "97 \<le> l" "l \<le> 122" "l \<noteq> 105" "l \<noteq> 107" "l \<noteq> 115"
    by (auto simp add: l_def is_ascii_letter_def unicode_tolower_def)
  from assms(1,2) q have "lowered q (unicode_tolower x)"
    by (simp add: IGNORECASE_def iscased_def)
  with q l have x: "unicode_tolower x = l"
    by (auto simp add: lowered_ascii l_def unicode_tolower_def Let_def split: if_splits)
  from l have "l < 128 \<or> l = 383" by simp
  from tolower_preimage [OF x this] l have "x = l \<or> (65 \<le> x \<and> x \<le> 90 \<and> l = x + 32)"
    by auto
  with x l have "lower_char x = [l] \<and> title_char x = [l - 32]"
    by (auto simp add: lower_char_def title_char_def)
  then show ?thesis by (simp add: l_def)
qed

lemma plain_word_match:
  assumes "list_all2 (\<lambda>p x. atom_match IGNORECASE (In [ch p]) x) w g"
    and "list_all (\<lambda>p. is_ascii_letter (of_char p) \<and> (of_char p :: nat) \<notin> {73, 75, 83, 105, 107, 115}) w"
  shows "lower g = map unicode_tolower (u w)"
  using assms
proof (induction w g rule: list_all2_induct)
  case Nil
  then show ?case by (simp add: lower_def)
next
  case (Cons p w x g)
  then have "lower_char x = [unicode_tolower (of_char p)]"
    using plain_letter_match [of "of_char p" x] by (simp add: ch_def)
  with Cons show ?case by (simp add: lower_def)
qed

lemma long_s_match:
  assumes "atom_match IGNORECASE (In [Chr 115]) x"
  shows "lower_char x = [115] \<or> lower_char x = [383]"
proof -
  from assms have "unicode_tolower x = 115 \<or> unicode_tolower x = 383"
    by (auto simp add: IGNORECASE_def iscased_def lowered_ascii unicode_tolower_def Let_def
        is_ascii_letter_def split: if_splits)
  then show ?thesis
  proof
    assume a: "unicode_tolower x = 115"
    from tolower_preimage [OF this] have "x \<noteq> 304" by auto
    with a show ?thesis by (simp add: lower_char_def)
  next
    assume a: "unicode_tolower x = 383"
    from tolower_preimage [OF this] have "x \<noteq> 304" by auto
    with a show ?thesis by (simp add: lower_char_def)
  qed
qed

lemma lit_match:
  "match_re f (lit w) prev s c k = Some res \<Longrightarrow>
     \<exists>g s' prev'. s = g @ s' \<and> list_all2 (\<lambda>p x. atom_match f (In [ch p]) x) w g
        \<and> k prev' s' c = Some res"
proof (induction w arbitrary: prev s rule: lit.induct)
  case 1
  then have "s = [] @ s \<and> list_all2 (\<lambda>p x. atom_match f (In [ch p]) x) [] [] \<and> k prev s c = Some res"
    by simp
  then show ?case by blast
next
  case (2 a)
  then obtain x xs where s: "s = x # xs" and ok: "atom_match f (In [ch a]) x"
    and k: "k (Some x) xs c = Some res"
    by (auto split: list.splits if_splits)
  then have "s = [x] @ xs \<and> list_all2 (\<lambda>p x. atom_match f (In [ch p]) x) [a] [x]
      \<and> k (Some x) xs c = Some res"
    by simp
  then show ?case by blast
next
  case (3 a b cs)
  then obtain x xs where s: "s = x # xs" and ok: "atom_match f (In [ch a]) x"
    and rest: "match_re f (lit (b # cs)) (Some x) xs c k = Some res"
    by (auto split: list.splits if_splits)
  from "3.IH" [OF rest] obtain g s' prev' where
    "xs = g @ s'" "list_all2 (\<lambda>p x. atom_match f (In [ch p]) x) (b # cs) g"
    "k prev' s' c = Some res"
    by blast
  with s ok have "s = (x # g) @ s' \<and> list_all2 (\<lambda>p x. atom_match f (In [ch p]) x) (a # b # cs) (x # g)
      \<and> k prev' s' c = Some res"
    by simp
  then show ?case by blast
qed

lemma alts_match:
  "match_re f (alts rs) prev s c k = Some res \<Longrightarrow> rs \<noteq> [] \<Longrightarrow>
     \<exists>r. r \<in> set rs \<and> match_re f r prev s c k = Some res"
proof (induction rs rule: alts.induct)
  case 1
  then show ?case by simp
next
  case (2 r)
  then show ?case by simp
next
  case (3 r r' rs)
  show ?case
  proof (cases "match_re f r prev s c k")
    case None
    with "3.prems" have "match_re f (alts (r' # rs)) prev s c k = Some res" by simp
    from "3.IH" [OF this] show ?thesis by auto
  next
    case (Some a)
    with "3.prems" show ?thesis by auto
  qed
qed

lemma search_from_match:
  "search_from f r prev s = Some c \<Longrightarrow> \<exists>prev' s1 s2. match_here f r prev' s1 = Some (c, s2)"
proof (induction s arbitrary: prev)
  case Nil
  then obtain b where "match_here f r prev [] = Some (c, b)"
    by (cases "match_here f r prev []") auto
  then show ?case by blast
next
  case (Cons x xs)
  show ?case
  proof (cases "match_here f r prev (x # xs)")
    case None
    with Cons.prems have "search_from f r (Some x) xs = Some c" by simp
    from Cons.IH [OF this] show ?thesis .
  next
    case (Some a)
    with Cons.prems have "match_here f r prev (x # xs) = Some (c, snd a)"
      by (cases a) simp
    then show ?thesis by blast
  qed
qed

lemma gender_match:
  assumes "match_here IGNORECASE gender_re prev s = Some (c, s2)"
  shows "\<exists>w g. w \<in> set [''Male'', ''Female'', ''Transgender'', ''M'', ''F'', ''T'']
           \<and> c 1 = Some g \<and> list_all2 (\<lambda>p x. atom_match IGNORECASE (In [ch p]) x) w g"
proof -
  define ws where "ws = [''Male'', ''Female'', ''Transgender'', ''M'', ''F'', ''T'']"
  define A where "A = alts (map lit ws)"
  let ?k = "\<lambda>prev' s' c'. match_re IGNORECASE Wordb prev' s'
               (c'(1 := Some (take (length s - length s') s))) (\<lambda>prev' s' c'. Some (c', s'))"
  have re: "gender_re = Seq Wordb (Seq (Group 1 A) Wordb)"
    by (simp add: gender_re_def A_def ws_def)
  from assms have "match_re IGNORECASE A prev s (\<lambda>_. None) ?k = Some (c, s2)"
    unfolding match_here_def re by (simp split: if_splits)
  moreover have "map lit ws \<noteq> []" by (simp add: ws_def)
  ultimately obtain r where r: "r \<in> set (map lit ws)"
    and m: "match_re IGNORECASE r prev s (\<lambda>_. None) ?k = Some (c, s2)"
    unfolding A_def using alts_match by blast
  from r obtain w where w: "w \<in> set ws" and rw: "r = lit w" by auto
  from lit_match [OF m [unfolded rw]] obtain g s' prev' where
    s: "s = g @ s'" and g: "list_all2 (\<lambda>p x. atom_match IGNORECASE (In [ch p]) x) w g"
    and k: "?k prev' s' (\<lambda>_. None) = Some (c, s2)"
    by blast
  from k s have "c 1 = Some g" by (auto split: if_splits)
  with w g show ?thesis unfolding ws_def by blast
qed

section \<open>The gender field\<close>

declare atom_match.simps [simp del]

lemma capitalize_plain:
  assumes "list_all2 (\<lambda>p x. atom_match IGNORECASE (In [ch p]) x) (a # w) g"
    and "list_all (\<lambda>p. is_ascii_letter (of_char p) \<and> (of_char p :: nat) \<notin> {73, 75, 83, 105, 107, 115}) (a # w)"
  shows "capitalize g = (unicode_tolower (of_char a) - 32) # map unicode_tolower (u w)"
proof -
  from assms(1) obtain x g' where g: "g = x # g'"
    and x: "atom_match IGNORECASE (In [ch a]) x"
    and g': "list_all2 (\<lambda>p x. atom_match IGNORECASE (In [ch p]) x) w g'"
    by (auto simp add: list_all2_Cons1)
  from x assms(2) have "title_char x = [unicode_tolower (of_char a) - 32]"
    using plain_letter_match [of "of_char a" x] by (simp add: ch_def)
  moreover from g' assms(2) have "lower g' = map unicode_tolower (u w)"
    using plain_word_match by simp
  ultimately show ?thesis using g by simp
qed

lemma capitalize_transgender:
  assumes "list_all2 (\<lambda>p x. atom_match IGNORECASE (In [ch p]) x) ''Transgender'' g"
  shows "capitalize g = u ''Transgender'' \<or> capitalize g = long_s_transgender"
proof -
  let ?P = "\<lambda>p x. atom_match IGNORECASE (In [ch p]) x"
  from assms have a: "list_all2 ?P (''Tran'' @ ''s'' @ ''gender'') g" by simp
  from a obtain g1 r where r: "g1 @ r = g" and g1: "list_all2 ?P ''Tran'' g1"
    and b: "list_all2 ?P (''s'' @ ''gender'') r"
    using list_all2_append1 [of ?P "''Tran''" "''s'' @ ''gender''" g] by blast
  from b obtain g2 g3 where r': "g2 @ g3 = r" and g2: "list_all2 ?P ''s'' g2"
    and g3: "list_all2 ?P ''gender'' g3"
    using list_all2_append1 [of ?P "''s''" "''gender''" r] by blast
  from r r' have g: "g = g1 @ g2 @ g3" by simp
  from g2 obtain y where y: "g2 = [y]" "atom_match IGNORECASE (In [Chr 115]) y"
    by (auto simp add: list_all2_Cons1 ch_def)
  from g1 obtain x g1' where x: "g1 = x # g1'" by (auto simp add: list_all2_Cons1)
  have c1: "capitalize g1 = u ''Tran''"
    using capitalize_plain [OF g1]
    by (simp add: is_ascii_letter_def unicode_tolower_def)
  have c3: "lower g3 = u ''gender''"
    using plain_word_match [OF g3]
    by (simp add: is_ascii_letter_def unicode_tolower_def)
  from x have "capitalize g = capitalize g1 @ lower_char y @ lower g3"
    using g y by (simp add: lower_append lower_def)
  with c1 c3 long_s_match [OF y(2)] show ?thesis
    by (auto simp add: long_s_transgender_def)
qed

lemma capitalize_gender:
  assumes "w \<in> set [''Male'', ''Female'', ''Transgender'', ''M'', ''F'', ''T'']"
    and "list_all2 (\<lambda>p x. atom_match IGNORECASE (In [ch p]) x) w g"
  shows "capitalize g \<in> set [u ''Male'', u ''Female'', u ''Transgender'', u ''M'', u ''F'', u ''T'',
           long_s_transgender]
         \<and> length (capitalize g) = length g"
proof -
  from assms(2) have len: "length g = length w" by (simp add: list_all2_lengthD)
  from assms(1) consider "w = ''Male''" | "w = ''Female''" | "w = ''Transgender''"
    | "w = ''M''" | "w = ''F''" | "w = ''T''"
    by auto
  then show ?thesis
  proof cases
    case 1
    with assms(2) have "capitalize g = u ''Male''"
      using capitalize_plain [of "CHR ''M''" "''ale''" g]
      by (simp add: is_ascii_letter_def unicode_tolower_def)
    with len 1 show ?thesis by simp
  next
    case 2
    with assms(2) have "capitalize g = u ''Female''"
      using capitalize_plain [of "CHR ''F''" "''emale''" g]
      by (simp add: is_ascii_letter_def unicode_tolower_def)
    with len 2 show ?thesis by simp
  next
    case 3
    with assms(2) capitalize_transgender [of g] len show ?thesis
      by (auto simp add: long_s_transgender_def)
  next
    case 4
    with assms(2) have "capitalize g = u ''M''"
      using capitalize_plain [of "CHR ''M''" "[]" g]
      by (simp add: is_ascii_letter_def unicode_tolower_def)
    with len 4 show ?thesis by simp
  next
    case 5
    with assms(2) have "capitalize g = u ''F''"
      using capitalize_plain [of "CHR ''F''" "[]" g]
      by (simp add: is_ascii_letter_def unicode_tolower_def)
    with len 5 show ?thesis by simp
  next
    case 6
    with assms(2) have "capitalize g = u ''T''"
      using capitalize_plain [of "CHR ''T''" "[]" g]
      by (simp add: is_ascii_letter_def unicode_tolower_def)
    with len 6 show ?thesis by simp
  qed
qed

lemmas pattern_defs =
  aadhaar_re_def three_groups_def vid_re_def tamil_name_re_def marker_re_def initial_re_def
  spaces_re_def newlines_re_def name_line_re_def guardian_re_def guardian_clause_re_def
  dob_re_def gender_re_def address_re_def number_re_def post_office_re_def dist_state_re_def
  district_re_def state_re_def pincode_re_def phone_re_def

lemmas parser_defs =
  parse_aadhaar_details_def parse_aadhaar_number_def parse_vid_def parse_tamil_name_def
  parse_name_fallback_def parse_guardian_name_def parse_dob_def parse_gender_def
  parse_address_def parse_district_def parse_state_def parse_pincode_def parse_phone_def
  text_lines_def is_name_line_def unwanted_phrases_def empty_data_def

lemma tolower_long_s: "lookup_lower 383 lower_table = 383"
  by (simp add: lower_table_def)

lemma parse_long_s_transgender:
  "parse_aadhaar_details long_s_transgender = Inr (empty_data\<lparr>gender := long_s_transgender\<rparr>)"
  by (simp add: long_s_transgender_def parser_defs pattern_defs engine_eval string_eval Let_def
      tolower_long_s cong: match_re_cong rep_greedy_cong rep_lazy_cong)

lemma parse_sex_f:
  "parse_aadhaar_details (u ''Sex: f'') = Inr (empty_data\<lparr>gender := u ''F''\<rparr>)"
  by (simp add: parser_defs pattern_defs engine_eval string_eval Let_def
      cong: match_re_cong rep_greedy_cong rep_lazy_cong)

text \<open>
  C10, as the code has it: the gender field of the record that the parser returns is the
  empty string, one of \<open>Male\<close>, \<open>Female\<close>, \<open>Transgender\<close>, \<open>M\<close>, \<open>F\<close>, \<open>T\<close>, or
  \<open>Transgender\<close> written with the long s (U+017F), which \<open>re.IGNORECASE\<close> matches with
  \<open>s\<close> and which \<open>capitalize\<close> leaves as it is. The field is the capitalized token of
  the text and has the length of that token: a single letter stays a single letter.
\<close>

theorem gender_values:
  assumes "parse_aadhaar_details t = Inr d"
  shows "gender d \<in> set [[], u ''Male'', u ''Female'', u ''Transgender'', u ''M'', u ''F'', u ''T'',
                        long_s_transgender]
         \<and> (case re_search IGNORECASE gender_re t of
               None \<Rightarrow> gender d = []
             | Some c \<Rightarrow>
                 (\<exists>g. c 1 = Some g \<and> gender d = capitalize g \<and> length (gender d) = length g))"
proof (cases "re_search IGNORECASE gender_re t")
  case None
  with gender_field [OF assms] show ?thesis by simp
next
  case (Some c)
  with gender_field [OF assms] obtain g where g: "c 1 = Some g" "gender d = capitalize g"
    by auto
  from Some obtain prev s1 s2 where "match_here IGNORECASE gender_re prev s1 = Some (c, s2)"
    using search_from_match [of IGNORECASE gender_re None t c] by (auto simp add: re_search_def)
  from gender_match [OF this] g obtain w where
    "w \<in> set [''Male'', ''Female'', ''Transgender'', ''M'', ''F'', ''T'']"
    "list_all2 (\<lambda>p x. atom_match IGNORECASE (In [ch p]) x) w g"
    by auto
  from capitalize_gender [OF this] g Some show ?thesis by simp
qed

theorem gender_values_witness:
  "parse_aadhaar_details (u ''Sex: f'') = Inr (empty_data\<lparr>gender := u ''F''\<rparr>)
   \<and> gender (empty_data\<lparr>gender := u ''F''\<rparr>)
       \<in> set [[], u ''Male'', u ''Female'', u ''Transgender'', u ''M'', u ''F'', u ''T'',
              long_s_transgender]"
  using gender_values [OF parse_sex_f] parse_sex_f by simp

text \<open>
  The claim as stated fails on the text \<open>Transgender\<close> written with the long s: the gender
  field is that word, which is none of the six values.
\<close>

theorem gender_long_s:
  "parse_aadhaar_details long_s_transgender = Inr (empty_data\<lparr>gender := long_s_transgender\<rparr>)
   \<and> long_s_transgender
       \<notin> set [[], u ''Male'', u ''Female'', u ''Transgender'', u ''M'', u ''F'', u ''T'']"
  using parse_long_s_transgender by (simp add: long_s_transgender_def)

section \<open>The district field\<close>

lemma parse_district_line:
  "parse_aadhaar_details district_line = Inr (empty_data\<lparr>district := u ''Chennai Tamil Nadu''\<rparr>)"
  by (simp add: district_line_def parser_defs pattern_defs engine_eval string_eval Let_def
      cong: match_re_cong rep_greedy_cong rep_lazy_cong)

lemma search_district_line:
  "map_option (\<lambda>c. c 1) (re_search IGNORECASE district_re district_line)
     = Some (Some (u ''Chennai, Tamil Nadu''))"
  by (simp add: district_line_def district_re_def engine_eval
      cong: match_re_cong rep_greedy_cong rep_lazy_cong)

text \<open>
  C8, as the code has it: where the district pattern matches, the district field of the
  record is the captured remainder of the line, trimmed of white space, with every comma
  removed, those in its interior too; where it does not match the field is empty. The
  field never contains a comma.
\<close>

theorem district_commas_removed:
  assumes "parse_aadhaar_details t = Inr d"
  shows "(case re_search IGNORECASE district_re t of
            None \<Rightarrow> district d = []
          | Some c \<Rightarrow> (\<exists>g. c 1 = Some g \<and> district d = filter (\<lambda>x. x \<noteq> 44) (strip g)))
         \<and> 44 \<notin> set (district d)"
  using district_field [OF assms]
  by (auto simp add: replace_nil_filter split: option.splits)

theorem district_commas_removed_witness:
  "parse_aadhaar_details district_line = Inr (empty_data\<lparr>district := u ''Chennai Tamil Nadu''\<rparr>)
   \<and> 44 \<notin> set (district (empty_data\<lparr>district := u ''Chennai Tamil Nadu''\<rparr>))"
  using district_commas_removed [OF parse_district_line] parse_district_line by simp

text \<open>
  The claim as stated fails on the line \<open>District: Chennai, Tamil Nadu\<close>: the pattern
  captures \<open>Chennai, Tamil Nadu\<close>, which has no trailing comma to strip, and the field is
  \<open>Chennai Tamil Nadu\<close>, without the comma in the interior.
\<close>

theorem district_interior_comma:
  "parse_aadhaar_details district_line = Inr (empty_data\<lparr>district := u ''Chennai Tamil Nadu''\<rparr>)
   \<and> map_option (\<lambda>c. c 1) (re_search IGNORECASE district_re district_line)
       = Some (Some (u ''Chennai, Tamil Nadu''))
   \<and> u ''Chennai Tamil Nadu'' \<noteq> rstrip_char 44 (strip (u ''Chennai, Tamil Nadu''))"
  using parse_district_line search_district_line
  by (simp add: rstrip_char_def strip_def lstrip_def rstrip_def is_space_def space_ranges_def)


end
